theory Spec2Isabelle
  imports Complex_Main
begin

section \<open>JavaScript strings and values\<close>

text \<open>
  A JavaScript string is a sequence of UTF-16 code units. Literals of the source are written
  with \<open>str\<close> for their ASCII runs and with explicit code units elsewhere
  (233 is e-acute, 8211 the en dash, 8217 the right single quotation mark).
\<close>

type_synonym jstring = "nat list"

definition str :: "string \<Rightarrow> jstring" where
  "str s = map of_char s"

text \<open>
  The values that reach the normalisation code are JSON values (tool-call arguments, the
  parsed candidate) and \<open>undefined\<close> for an absent property. A number is carried by its
  rendering \<open>String(n)\<close>: the code only renders numbers and tests their truthiness. An
  object is a list of its own properties.
\<close>

datatype jsval =
    JUndefined
  | JNull
  | JBool bool
  | JNum jstring
  | JStr jstring
  | JArr "jsval list"
  | JObj "(jstring \<times> jsval) list"

type_synonym AuditData = "jstring \<rightharpoonup> jsval"

text \<open>Reading a property: an absent key reads as \<open>undefined\<close>.\<close>

definition getProp :: "AuditData \<Rightarrow> jstring \<Rightarrow> jsval" where
  "getProp obj k = (case obj k of None \<Rightarrow> JUndefined | Some v \<Rightarrow> v)"

definition truthy :: "jsval \<Rightarrow> bool" where
  "truthy v =
     (case v of
        JUndefined \<Rightarrow> False
      | JNull \<Rightarrow> False
      | JBool b \<Rightarrow> b
      | JNum r \<Rightarrow> r \<noteq> str ''0'' \<and> r \<noteq> str ''NaN''
      | JStr s \<Rightarrow> s \<noteq> []
      | JArr xs \<Rightarrow> True
      | JObj kvs \<Rightarrow> True)"

definition isNullish :: "jsval \<Rightarrow> bool" where
  "isNullish v = (v = JUndefined \<or> v = JNull)"

text \<open>\<open>a ?? b\<close>\<close>

definition nullish :: "jsval \<Rightarrow> jsval \<Rightarrow> jsval" where
  "nullish a b = (if isNullish a then b else a)"

fun join :: "jstring \<Rightarrow> jstring list \<Rightarrow> jstring" where
  "join sep [] = []"
| "join sep [x] = x"
| "join sep (x # y # ys) = x @ sep @ join sep (y # ys)"

text \<open>
  \<open>String(v)\<close>, which is also \<open>v.toString()\<close> where \<open>v\<close> is not nullish. An array joins
  its elements with commas, a nullish element giving the empty string; an object is rendered
  by the inherited \<open>Object.prototype.toString\<close>.
\<close>

fun toStringJS :: "jsval \<Rightarrow> jstring" where
  "toStringJS JUndefined = str ''undefined''"
| "toStringJS JNull = str ''null''"
| "toStringJS (JBool b) = (if b then str ''true'' else str ''false'')"
| "toStringJS (JNum r) = r"
| "toStringJS (JStr s) = s"
| "toStringJS (JArr xs) =
     join (str '','') (map (\<lambda>x. if x = JUndefined \<or> x = JNull then [] else toStringJS x) xs)"
| "toStringJS (JObj kvs) = str ''[object Object]''"

subsection \<open>Character classes, \<open>trim\<close>, \<open>split\<close>\<close>

text \<open>ECMAScript white space and line terminators: what \<open>trim\<close> strips and \<open>\s\<close> matches.\<close>

definition isWhiteSpace :: "nat \<Rightarrow> bool" where
  "isWhiteSpace c =
     (c \<in> set [9, 10, 11, 12, 13, 32, 160, 5760, 8232, 8233, 8239, 8287, 12288, 65279]
      \<or> (8192 \<le> c \<and> c \<le> 8202))"

definition isDigit :: "nat \<Rightarrow> bool" where
  "isDigit c = (48 \<le> c \<and> c \<le> 57)"

text \<open>\<open>[a-z0-9]\<close>\<close>

definition isLowerAlnum :: "nat \<Rightarrow> bool" where
  "isLowerAlnum c = ((97 \<le> c \<and> c \<le> 122) \<or> isDigit c)"

text \<open>\<open>\w\<close>, which decides \<open>\b\<close>\<close>

definition isWordChar :: "nat \<Rightarrow> bool" where
  "isWordChar c =
     ((97 \<le> c \<and> c \<le> 122) \<or> (65 \<le> c \<and> c \<le> 90) \<or> isDigit c \<or> c = 95)"

definition trim :: "jstring \<Rightarrow> jstring" where
  "trim s = rev (dropWhile isWhiteSpace (rev (dropWhile isWhiteSpace s)))"

text \<open>
  \<open>s.split(sep)\<close> for a one-character separator: the pieces between the occurrences, empty
  pieces included.
\<close>

fun splitOn :: "nat \<Rightarrow> jstring \<Rightarrow> jstring list" where
  "splitOn sep [] = [[]]"
| "splitOn sep (c # cs) =
     (if c = sep then [] # splitOn sep cs
      else (case splitOn sep cs of [] \<Rightarrow> [[c]] | p # ps \<Rightarrow> (c # p) # ps))"

text \<open>
  \<open>s.split(/[...]+/g)\<close> for a class of separators: the pieces between the maximal runs of
  separators; a leading or trailing run leaves an empty first or last piece.
\<close>

function splitRuns :: "(nat \<Rightarrow> bool) \<Rightarrow> jstring \<Rightarrow> jstring list" where
  "splitRuns isSep [] = [[]]"
| "splitRuns isSep (c # cs) =
     (if isSep c then [] # splitRuns isSep (dropWhile isSep cs)
      else (case splitRuns isSep cs of [] \<Rightarrow> [[c]] | p # ps \<Rightarrow> (c # p) # ps))"
  by pat_completeness auto
termination
  by (relation "measure (\<lambda>(isSep, s). length s)")
     (auto simp: length_dropWhile_le less_Suc_eq_le)

text \<open>\<open>s.replace(/[...]+/g, ' ')\<close>: every maximal run of the class becomes one replacement.\<close>

function replaceRuns :: "(nat \<Rightarrow> bool) \<Rightarrow> jstring \<Rightarrow> jstring \<Rightarrow> jstring" where
  "replaceRuns p r [] = []"
| "replaceRuns p r (c # cs) =
     (if p c then r @ replaceRuns p r (dropWhile p cs) else c # replaceRuns p r cs)"
  by pat_completeness auto
termination
  by (relation "measure (\<lambda>(p, r, s). length s)")
     (auto simp: length_dropWhile_le less_Suc_eq_le)

text \<open>\<open>parseInt(s, 10)\<close> on a string of decimal digits.\<close>

definition parseDigits :: "jstring \<Rightarrow> nat" where
  "parseDigits s = foldl (\<lambda>a c. 10 * a + (c - 48)) 0 s"

subsection \<open>The regular expressions of the source\<close>

text \<open>
  The patterns of the source are alternatives of sequences of atoms: a character class taken
  once, optionally, zero or more times, one or more times, or the word boundary \<open>\b\<close>.
  \<open>rxMatch\<close> is the backtracking matcher: it returns what is left of the input after
  each way of matching the sequence at the front of the input, greedy ways first;
  \<open>prev\<close> is the code unit before the current position (for \<open>\b\<close>).
\<close>

datatype cls = Chr nat | AnyOf "nat list" | Digit | WhiteSpace

fun inCls :: "cls \<Rightarrow> nat \<Rightarrow> bool" where
  "inCls (Chr c) x = (x = c)"
| "inCls (AnyOf cs) x = (x \<in> set cs)"
| "inCls Digit x = isDigit x"
| "inCls WhiteSpace x = isWhiteSpace x"

datatype atom = One cls | Opt cls | Star cls | Plus cls | Boundary

definition atBoundary :: "nat option \<Rightarrow> jstring \<Rightarrow> bool" where
  "atBoundary prev s =
     ((case prev of None \<Rightarrow> False | Some c \<Rightarrow> isWordChar c)
      \<noteq> (case s of [] \<Rightarrow> False | c # _ \<Rightarrow> isWordChar c))"

fun rxMatch :: "atom list \<Rightarrow> nat option \<Rightarrow> jstring \<Rightarrow> jstring list" where
  "rxMatch [] prev s = [s]"
| "rxMatch (One c # as) prev [] = []"
| "rxMatch (One c # as) prev (x # xs) = (if inCls c x then rxMatch as (Some x) xs else [])"
| "rxMatch (Opt c # as) prev [] = rxMatch as prev []"
| "rxMatch (Opt c # as) prev (x # xs) =
     (if inCls c x then rxMatch as (Some x) xs else []) @ rxMatch as prev (x # xs)"
| "rxMatch (Star c # as) prev [] = rxMatch as prev []"
| "rxMatch (Star c # as) prev (x # xs) =
     (if inCls c x then rxMatch (Star c # as) (Some x) xs else []) @ rxMatch as prev (x # xs)"
| "rxMatch (Plus c # as) prev [] = []"
| "rxMatch (Plus c # as) prev (x # xs) =
     (if inCls c x then rxMatch (Star c # as) (Some x) xs else [])"
| "rxMatch (Boundary # as) prev s = (if atBoundary prev s then rxMatch as prev s else [])"

text \<open>\<open>/alt1|alt2|.../.test(s)\<close>: some alternative matches at some position.\<close>

fun rxSearch :: "atom list list \<Rightarrow> nat option \<Rightarrow> jstring \<Rightarrow> bool" where
  "rxSearch alts prev [] = list_ex (\<lambda>a. rxMatch a prev [] \<noteq> []) alts"
| "rxSearch alts prev (x # xs) =
     (if list_ex (\<lambda>a. rxMatch a prev (x # xs) \<noteq> []) alts then True
      else rxSearch alts (Some x) xs)"

definition rxTest :: "atom list list \<Rightarrow> jstring \<Rightarrow> bool" where
  "rxTest alts s = rxSearch alts None s"

text \<open>\<open>/^(?:alt1|alt2|...)$/.test(s)\<close>: some alternative matches the whole input.\<close>

definition rxFull :: "atom list list \<Rightarrow> jstring \<Rightarrow> bool" where
  "rxFull alts s = list_ex (\<lambda>a. [] \<in> set (rxMatch a None s)) alts"

text \<open>A literal; a literal under the \<open>i\<close> flag (ASCII letters match in both cases).\<close>

definition lit :: "string \<Rightarrow> atom list" where
  "lit s = map (\<lambda>c. One (Chr (of_char c))) s"

definition bothCases :: "nat \<Rightarrow> nat list" where
  "bothCases c =
     (if 97 \<le> c \<and> c \<le> 122 then [c, c - 32]
      else if 65 \<le> c \<and> c \<le> 90 then [c, c + 32]
      else [c])"

definition liti :: "string \<Rightarrow> atom list" where
  "liti s = map (\<lambda>c. One (AnyOf (bothCases (of_char c)))) s"

text \<open>e-acute under the \<open>i\<close> flag: the letter or its capital\<close>

definition eacute_i :: "atom list" where
  "eacute_i = [One (AnyOf [233, 201])]"

text \<open>\<open>\s+\<close> and \<open>\s*\<close>\<close>

definition sp :: "atom list" where
  "sp = [Plus WhiteSpace]"

definition sp0 :: "atom list" where
  "sp0 = [Star WhiteSpace]"

text \<open>\<open>\b(alt1|alt2|...)\b\<close>\<close>

definition wordsRx :: "atom list list \<Rightarrow> atom list list" where
  "wordsRx alts = map (\<lambda>a. Boundary # a @ [Boundary]) alts"

subsection \<open>The two Unicode built-ins\<close>

text \<open>
  \<open>String.prototype.toLowerCase\<close> and \<open>String.prototype.normalize('NFD')\<close> belong to the
  JavaScript engine, not to the repository: they are parameters of the model.
\<close>

record platform =
  toLowerCase :: "jstring \<Rightarrow> jstring"
  normalizeNFD :: "jstring \<Rightarrow> jstring"

text \<open>
  What the Unicode Character Database fixes for the code units the catalogue and French
  answers are written in: Basic Latin, Latin-1 Supplement, the ligature oe, the en dash, the
  right single quotation mark and the euro sign. On such text both built-ins work code unit
  by code unit.
\<close>

definition covered :: "nat \<Rightarrow> bool" where
  "covered c = (c < 256 \<or> c \<in> set [338, 339, 8211, 8217, 8364])"

definition lower1 :: "nat \<Rightarrow> nat" where
  "lower1 c =
     (if 65 \<le> c \<and> c \<le> 90 then c + 32
      else if 192 \<le> c \<and> c \<le> 222 \<and> c \<noteq> 215 then c + 32
      else if c = 338 then 339
      else c)"

text \<open>
  Canonical decompositions of the small Latin-1 letters: base letter and combining mark
  (768 grave, 769 acute, 770 circumflex, 771 tilde, 776 diaeresis, 778 ring, 807 cedilla).
  The capitals lie 32 below, with the capital base letter.
\<close>

definition latin1Decomp :: "(nat \<times> nat \<times> nat) list" where
  "latin1Decomp =
     [(224, 97, 768), (225, 97, 769), (226, 97, 770), (227, 97, 771), (228, 97, 776),
      (229, 97, 778), (231, 99, 807),
      (232, 101, 768), (233, 101, 769), (234, 101, 770), (235, 101, 776),
      (236, 105, 768), (237, 105, 769), (238, 105, 770), (239, 105, 776),
      (241, 110, 771),
      (242, 111, 768), (243, 111, 769), (244, 111, 770), (245, 111, 771), (246, 111, 776),
      (249, 117, 768), (250, 117, 769), (251, 117, 770), (252, 117, 776),
      (253, 121, 769), (255, 121, 776)]"

definition decomp1 :: "nat \<Rightarrow> jstring" where
  "decomp1 c =
     (if c < 192 \<or> c = 223 then [c]
      else case map_of latin1Decomp c of
             Some (b, m) \<Rightarrow> [b, m]
           | None \<Rightarrow>
               (case map_of latin1Decomp (c + 32) of
                  Some (b, m) \<Rightarrow> [b - 32, m]
                | None \<Rightarrow> [c]))"

definition ucd :: platform where
  "ucd = \<lparr> toLowerCase = map lower1, normalizeNFD = (\<lambda>s. concat (map decomp1 s)) \<rparr>"

definition conforms :: "platform \<Rightarrow> bool" where
  "conforms U =
     (\<forall>s. list_all covered s \<longrightarrow>
        toLowerCase U s = toLowerCase ucd s \<and> normalizeNFD U s = normalizeNFD ucd s)"

section \<open>The question catalogue (\<open>constants.ts\<close>)\<close>

datatype QuestionType = SELECT | MULTI_SELECT | STRING | BOOL

text \<open>
  The interface \<open>Question\<close>. The fields \<open>label\<close> and \<open>description\<close> are prompt text, read
  only when the instructions of the conversational model are built; they are left out.
  Optional fields are options.
\<close>

record question =
  id_q :: jstring
  type_q :: QuestionType
  notionKey :: jstring
  options :: "jstring list option"
  maxItems :: "nat option"
  triggerAutre :: "jstring option"
  autreKey :: "jstring option"

definition SOURCE_TAG :: jstring where
  "SOURCE_TAG = str ''Form-AMAI-GAIS-251017''"

definition q01 :: question where
  "q01 = \<lparr>
     id_q = str ''q01'',
     type_q = SELECT,
     notionKey = str ''Maturit'' @ [233] @ str '' '' @ [8211] @ str '' Strat'' @ [233] @ str ''gie'',
     options = Some
      [str ''Pas de strat'' @ [233] @ str ''gie d'' @ [233] @ str ''finie nous explorons simplement.'',
       str ''Nous avons une strat'' @ [233] @ str ''gie de base pour des projets sp'' @ [233] @ str ''cifiques mais non '' @ [233] @ str ''tendue '' @ [224] @ str '' toute l'' @ [39] @ str ''entreprise'',
       str ''Nous avons une strat'' @ [233] @ str ''gie IA claire '' @ [224] @ str '' l'' @ [39, 233] @ str ''chelle de l'' @ [39] @ str ''entreprise en cours d'' @ [39] @ str ''impl'' @ [233] @ str ''mentation.'',
       str ''Notre strat'' @ [233] @ str ''gie IA est enti'' @ [232] @ str ''rement int'' @ [233] @ str ''gr'' @ [233] @ str ''e '' @ [224] @ str '' notre strat'' @ [233] @ str ''gie commerciale et stimule l'' @ [39] @ str ''innovation.''],
     maxItems = None,
     triggerAutre = None,
     autreKey = None \<rparr>"

definition q02 :: question where
  "q02 = \<lparr>
     id_q = str ''q02'',
     type_q = SELECT,
     notionKey = str ''Maturit'' @ [233] @ str '' '' @ [8211] @ str '' Donn'' @ [233] @ str ''es-Infrastructure'',
     options = Some
      [str ''Les donn'' @ [233] @ str ''es sont cloisonn'' @ [233] @ str ''es et inaccessibles'',
       str ''Nous commen'' @ [231] @ str ''ons '' @ [224] @ str '' centraliser les donn'' @ [233] @ str ''es mais c'' @ [39] @ str ''est un travail en cours'',
       str ''Nous disposons d'' @ [39] @ str ''une plateforme de donn'' @ [233] @ str ''es centralis'' @ [233] @ str ''e et bien g'' @ [233] @ str ''r'' @ [233] @ str ''e'',
       str ''Nos donn'' @ [233] @ str ''es sont un atout strat'' @ [233] @ str ''gique - disponibles pour mod'' @ [232] @ str ''les IA - gouvernance solide''],
     maxItems = None,
     triggerAutre = None,
     autreKey = None \<rparr>"

definition q03 :: question where
  "q03 = \<lparr>
     id_q = str ''q03'',
     type_q = SELECT,
     notionKey = str ''Maturit'' @ [233] @ str '' '' @ [8211] @ str '' Comp'' @ [233] @ str ''tences'',
     options = Some
      [str ''Tr'' @ [232] @ str ''s faibles. Nous avons peu ou pas d'' @ [39] @ str ''expertise en interne.'',
       str ''Basiques. Quelques membres de l'' @ [39, 233] @ str ''quipe ont des connaissances mais ce n'' @ [39] @ str ''est pas g'' @ [233] @ str ''n'' @ [233] @ str ''ralis'' @ [233] @ str ''.'',
       str ''Mod'' @ [233] @ str ''r'' @ [233] @ str ''es. Nous avons des '' @ [233] @ str ''quipes ou individus d'' @ [233] @ str ''di'' @ [233] @ str ''s avec de solides comp'' @ [233] @ str ''tences IA-Num'' @ [233] @ str ''rique'',
       [201] @ str ''lev'' @ [233] @ str ''es. Expertise en IA-Num'' @ [233] @ str ''rique r'' @ [233] @ str ''pandue et encourag'' @ [233] @ str ''e activement - culture d'' @ [39] @ str ''apprentissage''],
     maxItems = None,
     triggerAutre = None,
     autreKey = None \<rparr>"

definition q04 :: question where
  "q04 = \<lparr>
     id_q = str ''q04'',
     type_q = SELECT,
     notionKey = str ''Maturit'' @ [233] @ str '' '' @ [8211] @ str '' Adoption techno'',
     options = Some
      [str ''Nous sommes tr'' @ [232] @ str ''s averses au risque et lents '' @ [224] @ str '' adopter les nouvelles technologies.'',
       str ''Nous exp'' @ [233] @ str ''rimentons les nouvelles technologies '' @ [224] @ str '' petite '' @ [233] @ str ''chelle et de mani'' @ [232] @ str ''re informelle.'',
       str ''Nous avons un processus formel pour piloter et adopter les nouvelles technologies.'',
       str ''Notre R&D est tr'' @ [232] @ str ''s active en technologies de pointe. Objectif: obtenir un avantage concurrentiel''],
     maxItems = None,
     triggerAutre = None,
     autreKey = None \<rparr>"

definition q05 :: question where
  "q05 = \<lparr>
     id_q = str ''q05'',
     type_q = SELECT,
     notionKey = str ''Maturit'' @ [233] @ str '' '' @ [8211] @ str '' Gouvernance'',
     options = Some
      [str ''Il n'' @ [39] @ str ''y a pas de processus formel de gouvernance ou de priorisation.'',
       str ''Les projets sont men'' @ [233] @ str ''s par des d'' @ [233] @ str ''partements individuels avec peu de supervision centrale.'',
       str ''Nous avons un comit'' @ [233] @ str '' interfonctionnel qui examine et priorise les initiatives d'' @ [39] @ str ''IA.'',
       str ''Nous avons une gouvernance IA solide int'' @ [233] @ str ''grant ROI mesurable '' @ [233] @ str ''thique et strat'' @ [233] @ str ''gie''],
     maxItems = None,
     triggerAutre = None,
     autreKey = None \<rparr>"

definition q06 :: question where
  "q06 = \<lparr>
     id_q = str ''q06'',
     type_q = SELECT,
     notionKey = str ''Statut R'' @ [233] @ str ''pondant - Position'',
     options = Some
      [str ''Dirigeant / cadre dirigeant / visionnaire d'' @ [233] @ str ''cisionnaire'',
       str ''Responsable op'' @ [233] @ str ''rationnel (cadre dirigeant op'' @ [233] @ str ''rationnel)'',
       str ''Collaborateur / expert technique'',
       str ''Autre''],
     maxItems = None,
     triggerAutre = Some (str ''Autre''),
     autreKey = Some (str ''Statut R'' @ [233] @ str ''pondant '' @ [8211] @ str '' Autre'') \<rparr>"

definition q07 :: question where
  "q07 = \<lparr>
     id_q = str ''q07'',
     type_q = SELECT,
     notionKey = str ''Service-d'' @ [233] @ str ''pt Rep'',
     options = Some
      [str ''Direction G'' @ [233] @ str ''n'' @ [233] @ str ''rale'',
       str ''Direction Financi'' @ [232] @ str ''re / Comptable'',
       str ''Direction Commerciale / Ventes'',
       str ''Direction Marketing / Communication'',
       str ''Direction Produit / Innovation'',
       str ''Direction des Op'' @ [233] @ str ''rations / Logistique'',
       str ''Direction des Ressources Humaines'',
       str ''Direction Informatique / Syst'' @ [232] @ str ''mes d'' @ [39] @ str ''Information'',
       str ''Autre''],
     maxItems = None,
     triggerAutre = Some (str ''Autre''),
     autreKey = Some (str ''Service-d'' @ [233] @ str ''pt Rep Autre'') \<rparr>"

definition q08 :: question where
  "q08 = \<lparr>
     id_q = str ''q08'',
     type_q = SELECT,
     notionKey = str ''Intitul'' @ [233] @ str '' poste Rep'',
     options = Some
      [str ''Pr'' @ [233] @ str ''sident / CEO / Directeur G'' @ [233] @ str ''n'' @ [233] @ str ''ral'',
       str ''Directeur Financier (CFO)'',
       str ''Directeur des Op'' @ [233] @ str ''rations (COO)'',
       str ''Directeur Technique / CTO / DSI'',
       str ''Directeur Marketing / CMO'',
       str ''Directeur Commercial / Responsable des Ventes'',
       str ''Responsable Produit / Chef de Produit'',
       str ''Responsable Logistique / Supply Chain'',
       str ''Responsable des Ressources Humaines'',
       str ''Responsable ADV / Administration des Ventes'',
       str ''Autre''],
     maxItems = None,
     triggerAutre = Some (str ''Autre''),
     autreKey = Some (str ''Intitul'' @ [233] @ str '' poste Rep-Autre'') \<rparr>"

definition q09 :: question where
  "q09 = \<lparr>
     id_q = str ''q09'',
     type_q = SELECT,
     notionKey = str ''Secteur activit'' @ [233],
     options = Some
      [str ''Agriculture-sylviculture-p'' @ [234] @ str ''che'',
       str ''Industries extractives'',
       str ''Industrie manufacturi'' @ [232] @ str ''re'',
       str ''Production-distribution '' @ [233] @ str ''nergie'',
       str ''Production-distribution eau-gestion d'' @ [233] @ str ''chets'',
       str ''Construction'',
       str ''Commerce r'' @ [233] @ str ''paration automobiles-moto'',
       str ''Transports-entreposage'',
       str ''H'' @ [233] @ str ''bergement-restauration'',
       str ''Information-communication'',
       str ''Finance-banque-assurance'',
       str ''Immobilier'',
       str ''Science-technique'',
       str ''Service administratif-soutien'',
       str ''Administration publique'',
       str ''Enseignement'',
       str ''Sant'' @ [233] @ str ''-action sociale'',
       str ''Art-spectacle-activit'' @ [233] @ str ''_r'' @ [233] @ str ''cr'' @ [233] @ str ''ative'',
       str ''Autres activit'' @ [233] @ str ''s de services'',
       str ''Autre''],
     maxItems = None,
     triggerAutre = Some (str ''Autre''),
     autreKey = Some (str ''Secteur activit'' @ [233] @ str ''-Autre'') \<rparr>"

definition q10 :: question where
  "q10 = \<lparr>
     id_q = str ''q10'',
     type_q = SELECT,
     notionKey = str ''Sous-secteur niche'',
     options = Some
      [str ''Agro-alimentaire'',
       str ''Sant'' @ [233] @ str ''/Biotech'',
       str ''Industrie Automobile'',
       str ''Conseil Strat'' @ [233] @ str ''gique'',
       str ''A'' @ [233] @ str ''ronautique'',
       str ''IT/SaaS'',
       str ''Finance/Assurance'',
       [201] @ str ''nergie'',
       [201] @ str ''ducation'',
       str ''Retail / E-commerce'',
       str ''Autre''],
     maxItems = None,
     triggerAutre = Some (str ''Autre''),
     autreKey = Some (str ''Sous-secteur-Autre'') \<rparr>"

definition q11 :: question where
  "q11 = \<lparr>
     id_q = str ''q11'',
     type_q = SELECT,
     notionKey = str ''Nbr employ'' @ [233] @ str ''s'',
     options = Some
      [str ''<50'',
       str ''50-250'',
       str ''250-500'',
       str ''500-1000'',
       str ''>1000''],
     maxItems = None,
     triggerAutre = None,
     autreKey = None \<rparr>"

definition q12 :: question where
  "q12 = \<lparr>
     id_q = str ''q12'',
     type_q = SELECT,
     notionKey = str ''CA'',
     options = Some
      [str ''<1 M'' @ [8364],
       str ''1-5 M'' @ [8364],
       str ''5-20 M'' @ [8364],
       str ''20-50 M'' @ [8364],
       str ''>50 M'' @ [8364]],
     maxItems = None,
     triggerAutre = None,
     autreKey = None \<rparr>"

definition q13 :: question where
  "q13 = \<lparr>
     id_q = str ''q13'',
     type_q = SELECT,
     notionKey = str ''Type offres'',
     options = Some
      [str ''Produits physiques'',
       str ''Services'',
       str ''Produits + services'',
       str ''Solutions sur-mesure / projets'',
       str ''Autre''],
     maxItems = None,
     triggerAutre = Some (str ''Autre''),
     autreKey = Some (str ''Type offres-Autre'') \<rparr>"

definition q14 :: question where
  "q14 = \<lparr>
     id_q = str ''q14'',
     type_q = SELECT,
     notionKey = str ''BtoB-BtoC'',
     options = Some
      [str ''BtoB'',
       str ''BtoC'',
       str ''BtoB + BtoC''],
     maxItems = None,
     triggerAutre = None,
     autreKey = None \<rparr>"

definition q15 :: question where
  "q15 = \<lparr>
     id_q = str ''q15'',
     type_q = SELECT,
     notionKey = str ''Nbr Entit'' @ [233] @ str ''s'',
     options = Some
      [str ''1: entit'' @ [233] @ str '' principale'',
       str ''2: entit'' @ [233] @ str '' principale + 1 filiale'',
       str ''3: entit'' @ [233] @ str '' principale + 2 filiales'',
       str ''4 ou plus'',
       str ''Autre''],
     maxItems = None,
     triggerAutre = Some (str ''Autre''),
     autreKey = Some (str ''Nbr Entit'' @ [233] @ str ''s-Autre'') \<rparr>"

definition q16 :: question where
  "q16 = \<lparr>
     id_q = str ''q16'',
     type_q = SELECT,
     notionKey = str ''March'' @ [233] @ str '' desservi'',
     options = Some
      [str ''Local / R'' @ [233] @ str ''gional'',
       str ''National'',
       str ''International'',
       str ''Autre''],
     maxItems = None,
     triggerAutre = Some (str ''Autre''),
     autreKey = Some (str ''March'' @ [233] @ str '' desservi '' @ [8211] @ str '' Autre'') \<rparr>"

definition q17 :: question where
  "q17 = \<lparr>
     id_q = str ''q17'',
     type_q = MULTI_SELECT,
     notionKey = str ''Objectifs IA-Digital'',
     options = Some
      [str ''Concevoir une application interne d'' @ [8217] @ str ''optimisation du cycle de vente.'',
       str ''Mettre en place un tableau de bord automatis'' @ [233] @ str '' pour piloter la performance.'',
       str ''Cr'' @ [233] @ str ''er un assistant IA pour automatiser les t'' @ [226] @ str ''ches administratives.'',
       str ''D'' @ [233] @ str ''velopper une solution de recommandation personnalis'' @ [233] @ str ''e (produits ou contenus).'',
       str ''Automatiser la d'' @ [233] @ str ''tection d'' @ [8217] @ str ''anomalies dans les donn'' @ [233] @ str ''es ou la production.'',
       str ''Optimiser la maintenance pr'' @ [233] @ str ''dictive des '' @ [233] @ str ''quipements.'',
       str ''Assistance '' @ [224] @ str '' la strat'' @ [233] @ str ''gie de l'' @ [39] @ str ''entreprise : commercial'',
       str ''Assistance '' @ [224] @ str '' la strat'' @ [233] @ str ''gie de l'' @ [39] @ str ''entreprise : innovation'',
       str ''Assistance '' @ [224] @ str '' la strat'' @ [233] @ str ''gie de l'' @ [39] @ str ''entreprise : finance-fiscalit'' @ [233],
       str ''Assistance '' @ [224] @ str '' la strat'' @ [233] @ str ''gie de l'' @ [39] @ str ''entreprise : management'',
       str ''Autre''],
     maxItems = Some 7,
     triggerAutre = Some (str ''Autre''),
     autreKey = Some (str ''Objectifs IA-Digital-Autre'') \<rparr>"

definition q18 :: question where
  "q18 = \<lparr>
     id_q = str ''q18'',
     type_q = MULTI_SELECT,
     notionKey = str ''D'' @ [233] @ str ''fis prioritaires (max 3)'',
     options = Some
      [str ''D'' @ [233] @ str ''finir ou actualiser la strat'' @ [233] @ str ''gie IA et Data'',
       str ''Automatiser des processus internes / am'' @ [233] @ str ''liorer la productivit'' @ [233],
       str ''Am'' @ [233] @ str ''liorer la croissance commerciale / diff'' @ [233] @ str ''renciation concurrentielle'',
       str ''Mieux exploiter / valoriser les donn'' @ [233] @ str ''es (data management)'',
       str ''Optimiser la marge et les co'' @ [251] @ str ''ts'',
       str ''Renforcer la satisfaction client et l'' @ [8217] @ str ''exp'' @ [233] @ str ''rience utilisateur'',
       str ''Gouvernance et conformit'' @ [233] @ str '' (RGPD AI Act '' @ [233] @ str ''thique)'',
       str ''Recruter et d'' @ [233] @ str ''velopper les comp'' @ [233] @ str ''tences IA/num'' @ [233] @ str ''riques'',
       str ''Autre''],
     maxItems = Some 3,
     triggerAutre = Some (str ''Autre''),
     autreKey = Some (str ''D'' @ [233] @ str ''fis '' @ [8211] @ str '' Autre'') \<rparr>"

definition q19 :: question where
  "q19 = \<lparr>
     id_q = str ''q19'',
     type_q = MULTI_SELECT,
     notionKey = str ''Attentes IA-Digital'',
     options = Some
      [str ''Obtenir une proposition de valeur actualis'' @ [233] @ str ''e gr'' @ [226] @ str ''ce '' @ [224] @ str '' l'' @ [8217] @ str ''IA'',
       str ''B'' @ [233] @ str ''n'' @ [233] @ str ''ficier d'' @ [8217] @ str ''une approche strat'' @ [233] @ str ''gique et d'' @ [8217] @ str ''une feuille de route'',
       str ''Mettre en place une approche op'' @ [233] @ str ''rationnelle (automatisation process)'',
       str ''Gagner en productivit'' @ [233] @ str '' / gagner du temps'',
       str ''Restaurer ou augmenter les marges'',
       str ''Autre''],
     maxItems = Some 5,
     triggerAutre = Some (str ''Autre''),
     autreKey = Some (str ''Attentes IA-Digital-Autre'') \<rparr>"

definition q20 :: question where
  "q20 = \<lparr>
     id_q = str ''q20'',
     type_q = STRING,
     notionKey = str ''e-mail r'' @ [233] @ str ''pondant'',
     options = None,
     maxItems = None,
     triggerAutre = None,
     autreKey = None \<rparr>"

definition q21 :: question where
  "q21 = \<lparr>
     id_q = str ''q21'',
     type_q = BOOL,
     notionKey = str ''Consentement RGPD (Oui/Non)'',
     options = None,
     maxItems = None,
     triggerAutre = None,
     autreKey = None \<rparr>"

definition QUESTIONS :: "question list" where
  "QUESTIONS = [q01, q02, q03, q04, q05, q06, q07, q08, q09, q10, q11, q12, q13, q14, q15, q16, q17, q18, q19, q20, q21]"

text \<open>\<open>NORMALIZATION_FALLBACKS_BY_NOTION_KEY\<close> is the empty object.\<close>

definition NORMALIZATION_FALLBACKS_BY_NOTION_KEY :: "jstring \<rightharpoonup> jstring" where
  "NORMALIZATION_FALLBACKS_BY_NOTION_KEY = Map.empty"

section \<open>Stage B: \<open>buildGuaranteedPayload\<close>\<close>

subsection \<open>Helpers on a question\<close>

definition getAllowed :: "question \<Rightarrow> jstring list" where
  "getAllowed q = (case options q of Some os \<Rightarrow> os | None \<Rightarrow> [])"

definition hasAutre :: "question \<Rightarrow> bool" where
  "hasAutre q =
     ((case autreKey q of Some k \<Rightarrow> k \<noteq> [] | None \<Rightarrow> False)
      \<and> (case triggerAutre q of
            Some t \<Rightarrow> if t \<noteq> [] then t \<in> set (getAllowed q) else str ''Autre'' \<in> set (getAllowed q)
          | None \<Rightarrow> str ''Autre'' \<in> set (getAllowed q)))"

definition autreLabel :: "question \<Rightarrow> jstring" where
  "autreLabel q =
     (case triggerAutre q of Some t \<Rightarrow> if t \<noteq> [] then t else str ''Autre'' | None \<Rightarrow> str ''Autre'')"

text \<open>\<open>opts[0] ?? ''\<close>\<close>

definition firstOption :: "jstring list \<Rightarrow> jstring" where
  "firstOption opts = (case opts of [] \<Rightarrow> [] | o1 # _ \<Rightarrow> o1)"

text \<open>
  \<open>if (q.autreKey && !base[q.autreKey]) base[q.autreKey] = text\<close>: the free text is stored
  under the escape key unless a truthy value is already there.
\<close>

definition storeAutre :: "question \<Rightarrow> AuditData \<Rightarrow> jstring \<Rightarrow> AuditData" where
  "storeAutre q base text =
     (case autreKey q of
        None \<Rightarrow> base
      | Some k \<Rightarrow> if k \<noteq> [] \<and> \<not> truthy (getProp base k) then base(k \<mapsto> JStr text) else base)"

subsection \<open>\<open>ensureSelect\<close>\<close>

text \<open>
  The local \<open>norm\<close> of \<open>ensureSelect\<close>: lower case, NFD, combining marks
  (U+0300 to U+036F) removed, both apostrophes to the ASCII one, every run outside
  \<open>[a-z0-9]\<close> to one space, trimmed.
\<close>

definition isCombining :: "nat \<Rightarrow> bool" where
  "isCombining c = (768 \<le> c \<and> c \<le> 879)"

definition norm_select :: "platform \<Rightarrow> jstring \<Rightarrow> jstring" where
  "norm_select U s =
     trim (replaceRuns (\<lambda>c. \<not> isLowerAlnum c) (str '' '')
       (map (\<lambda>c. if c = 39 \<or> c = 8217 then 39 else c)
         (filter (\<lambda>c. \<not> isCombining c) (normalizeNFD U (toLowerCase U s)))))"

text \<open>
  \<open>new Map(opts.map((o) => [norm(o), o]))\<close> and its \<open>get\<close>: of two options with the same
  normal form the later one stays.
\<close>

definition optByNorm :: "platform \<Rightarrow> jstring list \<Rightarrow> jstring \<rightharpoonup> jstring" where
  "optByNorm U opts = map_of (rev (map (\<lambda>o1. (norm_select U o1, o1)) opts))"

text \<open>Words separated by \<open>\s+\<close>, as in \<open>pas\s+de\s+strategie\<close>.\<close>

fun phrase :: "string list \<Rightarrow> atom list" where
  "phrase [] = []"
| "phrase [w] = lit w"
| "phrase (w # w' # ws) = lit w @ sp @ phrase (w' # ws)"

definition kwExplore :: "atom list list" where
  "kwExplore = wordsRx [lit ''explore'', lit ''exploration'', lit ''test'', lit ''pilote'',
     lit ''poc'', lit ''debut'', lit ''commence'']"

definition kwNoStrategy :: "atom list list" where
  "kwNoStrategy = wordsRx [phrase [''pas'', ''de'', ''strategie''], phrase [''aucun'', ''cadre''],
     phrase [''rien'', ''de'', ''structure'']]"

definition kwProject :: "atom list list" where
  "kwProject = wordsRx [lit ''projet'', phrase [''cas'', ''d'', ''usage''], phrase [''use'', ''case''],
     lit ''ponctuel'', lit ''quelques'']"

definition kwNotExtended :: "atom list list" where
  "kwNotExtended = wordsRx [phrase [''non'', ''etendu''], phrase [''pas'', ''generalise''],
     phrase [''pas'', ''a'', ''l'', ''echelle'']]"

definition kwDeployment :: "atom list list" where
  "kwDeployment = wordsRx [lit ''entreprise'', lit ''global'', lit ''transverse'', lit ''deploi'',
     phrase [''mise'', ''en'', ''place''], phrase [''en'', ''cours'']]"

definition kwStructured :: "atom list list" where
  "kwStructured = wordsRx [lit ''structure'', lit ''formalise'', phrase [''strategie'', ''claire'']]"

definition kwIntegrated :: "atom list list" where
  "kwIntegrated = wordsRx [lit ''integre'', lit ''integration'', lit ''aligne'', lit ''commercial'',
     lit ''innovation'', lit ''avantage'', lit ''competitif'']"

definition kwStimulate :: "atom list list" where
  "kwStimulate = wordsRx [lit ''stimule'', lit ''accelere'', lit ''transforme'']"

definition kwDataStructured :: "atom list list" where
  "kwDataStructured = wordsRx [lit ''structure'', lit ''consolide'', lit ''centralise'',
     lit ''plateforme'', lit ''gouvernance'']"

definition kwDataSiloed :: "atom list list" where
  "kwDataSiloed = wordsRx [lit ''cloisonne'', lit ''inaccessible'']"

text \<open>\<open>/Donnees|Donn[e-acute]es/i\<close> on the notion key\<close>

definition rxDonnees :: "atom list list" where
  "rxDonnees = [liti ''Donnees'', liti ''Donn'' @ eacute_i @ liti ''es'']"

text \<open>
  \<open>isQ01toQ05\<close>: the question id matches \<open>/^q0[1-5]$/i\<close>, or the notion key matches
  \<open>/Maturit[e-acute]\s*[en dash]\s*(Strat[e-acute]gie|Donn[e-acute]es|Process|Gouvernance|Comp[e-acute]tences)/i\<close>,
  where [e-acute] and [en dash] stand for the two characters of the source.
  A question has no \<open>questionId\<close>, so \<open>q.questionId ?? q.id\<close> is its \<open>id\<close>.
\<close>

definition rxQ01toQ05 :: "atom list list" where
  "rxQ01toQ05 = [liti ''q0'' @ [One (AnyOf [49, 50, 51, 52, 53])]]"

definition rxMaturite :: "atom list list" where
  "rxMaturite =
     map (\<lambda>w. liti ''Maturit'' @ eacute_i @ sp0 @ [One (Chr 8211)] @ sp0 @ w)
       [liti ''Strat'' @ eacute_i @ liti ''gie'', liti ''Donn'' @ eacute_i @ liti ''es'',
        liti ''Process'', liti ''Gouvernance'', liti ''Comp'' @ eacute_i @ liti ''tences'']"

definition isQ01toQ05 :: "question \<Rightarrow> bool" where
  "isQ01toQ05 q = (rxFull rxQ01toQ05 (id_q q) \<or> rxTest rxMaturite (notionKey q))"

text \<open>\<open>add(i, w)\<close> on \<open>scoreByIndex\<close>\<close>

definition add :: "nat list \<Rightarrow> nat \<Rightarrow> nat \<Rightarrow> nat list" where
  "add scoreByIndex i w = scoreByIndex[i := scoreByIndex ! i + w]"

definition scoreByIndex :: "jstring \<Rightarrow> jstring \<Rightarrow> nat list" where
  "scoreByIndex nk v =
     (let s = [0, 0, 0, 0];
          s = (if rxTest kwExplore v then add s 0 2 else s);
          s = (if rxTest kwNoStrategy v then add s 0 3 else s);
          s = (if rxTest kwProject v then add s 1 2 else s);
          s = (if rxTest kwNotExtended v then add s 1 2 else s);
          s = (if rxTest kwDeployment v then add s 2 2 else s);
          s = (if rxTest kwStructured v then add s 2 2 else s);
          s = (if rxTest kwIntegrated v then add s 3 2 else s);
          s = (if rxTest kwStimulate v then add s 3 1 else s);
          s = (if rxTest rxDonnees nk
               then (let s = (if rxTest kwDataStructured v then add s 2 3 else s)
                     in if rxTest kwDataSiloed v then add s 0 3 else s)
               else s)
      in s)"

text \<open>The loop \<open>for (i = 1; i < 4; i++) if (score[i] > score[bestIdx]) bestIdx = i\<close>.\<close>

definition bestIdx :: "nat list \<Rightarrow> nat" where
  "bestIdx sc = foldl (\<lambda>b i. if sc ! i > sc ! b then i else b) 0 [1, 2, 3]"

text \<open>
  Step 4 of \<open>ensureSelect\<close>: for the maturity questions with at least four options, the
  option of the best bucket when some score is positive.
\<close>

definition maturityChoice :: "question \<Rightarrow> jstring list \<Rightarrow> jstring \<Rightarrow> jstring option" where
  "maturityChoice q opts v =
     (if isQ01toQ05 q \<and> length opts \<ge> 4 then
        (let sc = scoreByIndex (notionKey q) v
         in if foldr max sc 0 > 0 then Some (opts ! bestIdx sc) else None)
      else None)"

text \<open>
  Step 7: the option whose set of tokens is nearest to the tokens of the input (size of
  the intersection over size of the union), the first of the best ones: the loop computes
  the score \<open>sc\<close> of each option in turn and keeps the option when \<open>sc > bestScore\<close>. The
  quotient is taken in the rationals; the sizes are far below the range where a double would
  merge two different quotients.
\<close>

definition tokenSet :: "jstring \<Rightarrow> jstring list" where
  "tokenSet v = remdups (filter (\<lambda>t. t \<noteq> []) (splitOn 32 v))"

definition overlap :: "jstring list \<Rightarrow> jstring list \<Rightarrow> rat" where
  "overlap tokens ot =
     (let inter = length (filter (\<lambda>t. t \<in> set ot) tokens);
          union = length tokens + length ot - inter
      in if union \<noteq> 0 then of_nat inter / of_nat union else 0)"

definition optionScores :: "platform \<Rightarrow> jstring list \<Rightarrow> jstring \<Rightarrow> rat list" where
  "optionScores U opts v = map (\<lambda>o1. overlap (tokenSet v) (tokenSet (norm_select U o1))) opts"

definition nearestOption :: "platform \<Rightarrow> jstring list \<Rightarrow> jstring \<Rightarrow> jstring" where
  "nearestOption U opts v =
     fst (foldl (\<lambda>(best, bestScore) (o1, sc). if sc > bestScore then (o1, sc) else (best, bestScore))
            (firstOption opts, - 1) (zip opts (optionScores U opts v)))"

text \<open>
  \<open>ensureSelect(q, value)\<close>. It may write the escape field of \<open>base\<close>, so it takes
  \<open>base\<close> and returns it with the chosen label. The steps, in the order of the source:
  the empty input; the exact label; the 1-based index (\<open>/^\d+$/\<close>, here: nothing but
  digits, the text being non-empty); the label of the same normal form; the keyword scores
  of the maturity questions; the escape; the business fallback; the nearest option.
\<close>

definition ensureSelect :: "platform \<Rightarrow> question \<Rightarrow> AuditData \<Rightarrow> jsval \<Rightarrow> jstring \<times> AuditData" where
  "ensureSelect U q base value =
     (let opts = getAllowed q;
          vRaw = trim (toStringJS (nullish value (JStr [])))
      in if vRaw = [] then
           (if hasAutre q then (autreLabel q, base) else (firstOption opts, base))
         else if vRaw \<in> set opts then (vRaw, base)
         else if list_all isDigit vRaw \<and> 1 \<le> parseDigits vRaw \<and> parseDigits vRaw \<le> length opts
           then (opts ! (parseDigits vRaw - 1), base)
         else
           (let v = norm_select U vRaw
            in case optByNorm U opts v of
                 Some o1 \<Rightarrow> (o1, base)
               | None \<Rightarrow>
                   (case maturityChoice q opts v of
                      Some o1 \<Rightarrow> (o1, base)
                    | None \<Rightarrow>
                        if hasAutre q then (autreLabel q, storeAutre q base vRaw)
                        else
                          (case NORMALIZATION_FALLBACKS_BY_NOTION_KEY (notionKey q) of
                             Some fb \<Rightarrow>
                               if fb \<noteq> [] \<and> fb \<in> set opts then (fb, base)
                               else (nearestOption U opts v, base)
                           | None \<Rightarrow> (nearestOption U opts v, base)))))"

subsection \<open>\<open>ensureMultiSelect\<close>\<close>

text \<open>The local \<open>norm\<close> of \<open>ensureMultiSelect\<close>: as above, but the apostrophes are removed.\<close>

definition norm_multi :: "platform \<Rightarrow> jstring \<Rightarrow> jstring" where
  "norm_multi U s =
     trim (replaceRuns (\<lambda>c. \<not> isLowerAlnum c) (str '' '')
       (filter (\<lambda>c. c \<noteq> 39 \<and> c \<noteq> 8217)
         (filter (\<lambda>c. \<not> isCombining c) (normalizeNFD U (toLowerCase U s)))))"

text \<open>\<open>if (v && !arr.includes(v)) arr.push(v)\<close>\<close>

definition pushUnique :: "jstring list \<Rightarrow> jstring \<Rightarrow> jstring list" where
  "pushUnique arr v = (if v \<noteq> [] \<and> v \<notin> set arr then arr @ [v] else arr)"

text \<open>The separators of \<open>/[\n,;|]+/\<close>: line feed, comma, semicolon, vertical bar.\<close>

definition isTokenSep :: "nat \<Rightarrow> bool" where
  "isTokenSep c = (c \<in> set [10, 44, 59, 124])"

definition parseTokens :: "jsval \<Rightarrow> jstring list" where
  "parseTokens v =
     (case v of
        JArr xs \<Rightarrow> filter (\<lambda>t. t \<noteq> []) (map (\<lambda>x. trim (toStringJS (nullish x (JStr [])))) xs)
      | JStr s \<Rightarrow> filter (\<lambda>t. t \<noteq> []) (map trim (splitRuns isTokenSep s))
      | _ \<Rightarrow> [])"

text \<open>
  \<open>tokenToOptionByIndex\<close>: \<open>/^(\d{1,2})\b/.exec(t)\<close>, then the option at that 1-based
  index, \<open>null\<close> when there is no match or the index is out of range.
\<close>

definition tokenToOptionByIndex :: "jstring list \<Rightarrow> jstring \<Rightarrow> jstring option" where
  "tokenToOptionByIndex opts t =
     (case rxMatch [One Digit, Opt Digit, Boundary] None t of
        [] \<Rightarrow> None
      | rest # _ \<Rightarrow>
          (let idx = parseDigits (take (length t - length rest) t)
           in if idx < 1 \<or> idx > length opts then None else Some (opts ! (idx - 1))))"

text \<open>\<open>t.replace(/^\d+\s*[.)-]\s*/g, '').trim()\<close>\<close>

definition stripNumbering :: "jstring \<Rightarrow> jstring" where
  "stripNumbering t =
     trim (case rxMatch [Plus Digit, Star WhiteSpace, One (AnyOf [46, 41, 45]), Star WhiteSpace] None t of
             [] \<Rightarrow> t
           | rest # _ \<Rightarrow> rest)"

text \<open>One round of the loop over \<open>rawTokens\<close>.\<close>

definition selectToken :: "jstring list \<Rightarrow> jstring list \<Rightarrow> jstring \<Rightarrow> jstring list" where
  "selectToken opts selected t =
     (case tokenToOptionByIndex opts t of
        Some byIndex \<Rightarrow>
          if byIndex \<noteq> [] then pushUnique selected byIndex
          else if t \<in> set opts then pushUnique selected t
          else if stripNumbering t \<in> set opts then pushUnique selected (stripNumbering t)
          else selected
      | None \<Rightarrow>
          if t \<in> set opts then pushUnique selected t
          else if stripNumbering t \<in> set opts then pushUnique selected (stripNumbering t)
          else selected)"

text \<open>
  \<open>autreText\<close>: the trimmed escape field of \<open>base\<close> when it is a string with something
  in it, else the trimmed \<open>value\<close> when it is a string, else the empty string.
\<close>

definition autreText :: "question \<Rightarrow> AuditData \<Rightarrow> jsval \<Rightarrow> jstring" where
  "autreText q base value =
     (let fromValue = (case value of JStr s \<Rightarrow> trim s | _ \<Rightarrow> [])
      in case autreKey q of
           None \<Rightarrow> fromValue
         | Some k \<Rightarrow>
             if k = [] then fromValue
             else (case getProp base k of
                     JStr s \<Rightarrow> if trim s \<noteq> [] then trim s else fromValue
                   | _ \<Rightarrow> fromValue))"

text \<open>
  The notion-key patterns of the scoring, all under the \<open>i\<close> flag. The question-id
  patterns \<open>/q17|q18|q19/i\<close>, \<open>/q17/i\<close>, ... are tested on \<open>String(q.questionId ?? '')\<close>,
  which is the empty string, as a question has no \<open>questionId\<close>.
\<close>

definition rxObjectifs :: "atom list list" where
  "rxObjectifs = [liti ''Objectifs IA-Digital'']"

definition rxDefis :: "atom list list" where
  "rxDefis = [liti ''D'' @ eacute_i @ liti ''fis prioritaires'']"

definition rxAttentes :: "atom list list" where
  "rxAttentes = [liti ''Attentes IA-Digital'']"

definition isQ17toQ19 :: "question \<Rightarrow> bool" where
  "isQ17toQ19 q =
     (rxTest [liti ''q17'', liti ''q18'', liti ''q19''] []
      \<or> rxTest (rxObjectifs @ rxDefis @ rxAttentes) (notionKey q))"

text \<open>\<open>add(idx0, w)\<close> on \<open>scored\<close>: nothing outside its range.\<close>

definition addScored :: "nat list \<Rightarrow> nat \<Rightarrow> nat \<Rightarrow> nat list" where
  "addScored scored idx0 w = (if idx0 < length scored then scored[idx0 := scored ! idx0 + w] else scored)"

text \<open>\<open>if (/\b(alt1|alt2|...)\b/.test(t)) add(idx0, w)\<close>\<close>

definition hit :: "jstring \<Rightarrow> string list \<Rightarrow> nat \<Rightarrow> nat \<Rightarrow> nat list \<Rightarrow> nat list" where
  "hit t alts idx0 w scored = (if rxTest (wordsRx (map lit alts)) t then addScored scored idx0 w else scored)"

definition scoreObjectifs :: "jstring \<Rightarrow> nat list \<Rightarrow> nat list" where
  "scoreObjectifs t scored =
     (let s = hit t [''cycle de vente'', ''vente'', ''crm'', ''prospection'', ''pipeline'', ''commercial''] 0 3 scored;
          s = hit t [''tableau de bord'', ''dashboard'', ''kpi'', ''reporting'', ''pilotage''] 1 3 s;
          s = hit t [''assistant'', ''automatiser'', ''administratif'', ''factur'', ''compta'', ''rh''] 2 3 s;
          s = hit t [''recommandation'', ''personnalis'', ''produit'', ''contenu''] 3 3 s;
          s = hit t [''anomalie'', ''qualite'', ''defaut'', ''controle'', ''production''] 4 3 s;
          s = hit t [''maintenance'', ''predict'', ''equipement'', ''panne''] 5 3 s
      in if rxTest (wordsRx [lit ''strategie'']) t then
           (let s = hit t [''commercial''] 6 2 s;
                s = hit t [''innovation''] 7 2 s;
                s = hit t [''finance'', ''fiscal''] 8 2 s
            in hit t [''management'', ''organisation''] 9 2 s)
         else s)"

definition scoreDefis :: "jstring \<Rightarrow> nat list \<Rightarrow> nat list" where
  "scoreDefis t scored =
     (let s = hit t [''strategie'', ''data''] 0 3 scored;
          s = hit t [''process'', ''productiv'', ''automatis''] 1 3 s;
          s = hit t [''croissance'', ''commercial'', ''differenci'', ''concurr''] 2 3 s;
          s = hit t [''donnees'', ''valoris'', ''data management'', ''qualite''] 3 3 s;
          s = hit t [''marge'', ''cout''] 4 3 s;
          s = hit t [''satisfaction'', ''client'', ''experience''] 5 3 s;
          s = hit t [''rgpd'', ''ai act'', ''ethique'', ''conform''] 6 3 s
      in hit t [''recrut'', ''competenc'', ''formation'', ''skill''] 7 3 s)"

definition scoreAttentes :: "jstring \<Rightarrow> nat list \<Rightarrow> nat list" where
  "scoreAttentes t scored =
     (let s = hit t [''proposition de valeur'', ''valeur''] 0 3 scored;
          s = hit t [''feuille de route'', ''roadmap'', ''strateg''] 1 3 s;
          s = hit t [''operationnel'', ''automatis'', ''process''] 2 3 s;
          s = hit t [''productiv'', ''temps'', ''gagner du temps''] 3 3 s
      in hit t [''marge''] 4 3 s)"

definition scored :: "platform \<Rightarrow> question \<Rightarrow> jstring list \<Rightarrow> jstring \<Rightarrow> nat list" where
  "scored U q opts text =
     (let t = norm_multi U text;
          nk = notionKey q;
          s = replicate (length opts) 0;
          s = (if rxTest rxObjectifs nk \<or> rxTest [liti ''q17''] [] then scoreObjectifs t s else s);
          s = (if rxTest rxDefis nk \<or> rxTest [liti ''q18''] [] then scoreDefis t s else s)
      in if rxTest rxAttentes nk \<or> rxTest [liti ''q19''] [] then scoreAttentes t s else s)"

text \<open>
  \<open>ranked\<close>: the indices with a positive score, by decreasing score (the sort is stable),
  the first \<open>maxItems\<close> of them, as option labels.
\<close>

definition ranked :: "jstring list \<Rightarrow> nat \<Rightarrow> nat list \<Rightarrow> jstring list" where
  "ranked opts maxI sc =
     map (\<lambda>(idx, score). opts ! idx)
       (take maxI
         (sort_key (\<lambda>(idx, score). - int score)
           (filter (\<lambda>(idx, score). score > 0) (zip [0..<length sc] sc))))"

text \<open>\<open>q.maxItems || opts.length\<close>\<close>

definition maxItemsOf :: "question \<Rightarrow> nat" where
  "maxItemsOf q =
     (case maxItems q of Some n \<Rightarrow> if n \<noteq> 0 then n else length (getAllowed q)
      | None \<Rightarrow> length (getAllowed q))"

text \<open>\<open>String(autreText || value || '').trim()\<close>\<close>

definition autreFallbackText :: "jstring \<Rightarrow> jsval \<Rightarrow> jstring" where
  "autreFallbackText aText value =
     trim (if aText \<noteq> [] then aText else if truthy value then toStringJS value else [])"

definition ensureMultiSelect ::
    "platform \<Rightarrow> question \<Rightarrow> AuditData \<Rightarrow> jsval \<Rightarrow> jstring list \<times> AuditData" where
  "ensureMultiSelect U q base value =
     (let opts = getAllowed q;
          maxI = maxItemsOf q;
          selected = foldl (selectToken opts) [] (parseTokens value)
      in if length selected > 0 then (take maxI selected, base)
         else
           (let aText = autreText q base value;
                rankedLabels =
                  (if isQ17toQ19 q \<and> aText \<noteq> [] then ranked opts maxI (scored U q opts aText) else [])
            in if length rankedLabels > 0 then (rankedLabels, base)
               else if hasAutre q then
                 ([autreLabel q], storeAutre q base (autreFallbackText aText value))
               else ([], base)))"

subsection \<open>\<open>ensureBool\<close>\<close>

definition affirmative :: "jstring list" where
  "affirmative = [str ''true'', str ''oui'', str ''ok'', str ''accord'', str ''yes'',
     str ''j'' @ [39] @ str ''accepte'', str ''accepte'']"

definition ensureBool :: "platform \<Rightarrow> jsval \<Rightarrow> bool" where
  "ensureBool U value =
     (case value of
        JBool b \<Rightarrow> b
      | _ \<Rightarrow> trim (toLowerCase U (toStringJS (nullish value (JStr [])))) \<in> set affirmative)"

subsection \<open>The loop over the catalogue and the metadata\<close>

text \<open>One round of \<open>for (const q of QUESTIONS)\<close>.\<close>

definition enforce :: "platform \<Rightarrow> AuditData \<Rightarrow> question \<Rightarrow> AuditData" where
  "enforce U base q =
     (let current = getProp base (notionKey q)
      in case type_q q of
           MULTI_SELECT \<Rightarrow>
             (case ensureMultiSelect U q base current of
                (labels, base') \<Rightarrow> base'(notionKey q \<mapsto> JArr (map JStr labels)))
         | BOOL \<Rightarrow> base(notionKey q \<mapsto> JBool (ensureBool U current))
         | SELECT \<Rightarrow>
             (case ensureSelect U q base current of
                (label, base') \<Rightarrow> base'(notionKey q \<mapsto> JStr label))
         | STRING \<Rightarrow> if isNullish current then base(notionKey q \<mapsto> JStr []) else base)"

definition kSessionId :: jstring where "kSessionId = str ''session_id''"
definition kSource :: jstring where "kSource = str ''source''"
definition kDate :: jstring where "kDate = str ''Date soumission''"
definition kDateQuoted :: jstring where "kDateQuoted = [39] @ str ''Date soumission'' @ [39]"
definition kExecutionMode :: jstring where "kExecutionMode = str ''executionMode''"
definition kNom :: jstring where "kNom = str ''Nom soumission''"
definition kEmail :: jstring where "kEmail = str ''e-mail r'' @ [233] @ str ''pondant''"

text \<open>\<open>a || b\<close>\<close>

definition orElse :: "jsval \<Rightarrow> jsval \<Rightarrow> jsval" where
  "orElse a b = (if truthy a then a else b)"

text \<open>
  The metadata fields. \<open>sessionId\<close> is \<open>currentSessionIdRef.current\<close> and \<open>nowISO\<close> is
  \<open>new Date().toISOString()\<close>: both are read from outside, so they are arguments.
\<close>

definition attachMeta :: "jsval \<Rightarrow> jstring \<Rightarrow> AuditData \<Rightarrow> AuditData" where
  "attachMeta sessionId nowISO base =
     (let b = base(kSessionId \<mapsto> sessionId);
          b = b(kSource \<mapsto> JStr SOURCE_TAG);
          b = b(kDate \<mapsto> orElse (getProp b kDate) (JStr nowISO));
          b = b(kDateQuoted \<mapsto> orElse (getProp b kDateQuoted) (getProp b kDate));
          b = b(kExecutionMode \<mapsto> orElse (getProp b kExecutionMode) (JStr (str ''production_guarded'')))
      in case getProp b kEmail of
           JStr e \<Rightarrow>
             if \<not> truthy (getProp b kNom) \<and> 64 \<in> set e
             then b(kNom \<mapsto> JStr (takeWhile (\<lambda>c. c \<noteq> 64) e))
             else b
         | _ \<Rightarrow> b)"

text \<open>
  \<open>buildGuaranteedPayload(rawData, transcript, candidate)\<close>; \<open>base\<close> starts as
  \<open>{ ...rawData, ...(candidate || {}) }\<close>.
\<close>

definition buildGuaranteedPayload ::
    "platform \<Rightarrow> jsval \<Rightarrow> jstring \<Rightarrow> AuditData \<Rightarrow> (jstring \<times> jstring) list \<Rightarrow> AuditData option
      \<Rightarrow> AuditData" where
  "buildGuaranteedPayload U sessionId nowISO rawData transcript candidate =
     attachMeta sessionId nowISO
       (foldl (enforce U) (rawData ++ (case candidate of None \<Rightarrow> Map.empty | Some c \<Rightarrow> c)) QUESTIONS)"

section \<open>Stage A and the submission pipeline\<close>

subsection \<open>\<open>normalizeAuditData\<close>\<close>

text \<open>
  The outcome of \<open>fetch("/api/normalize", ...)\<close> as the function sees it: the promise
  rejects (network error, abort by the timeout), or a response arrives with its \<open>ok\<close> flag
  and its body as \<open>res.json()\<close> parses it, \<open>None\<close> when that fails.
\<close>

datatype normalizeOutcome = FetchRejected | Response bool "jsval option"

function decimal :: "nat \<Rightarrow> jstring" where
  "decimal n = (if n < 10 then [48 + n] else decimal (n div 10) @ [48 + n mod 10])"
  by pat_completeness auto
termination
  by (relation "measure id") auto

text \<open>
  The own enumerable properties that \<open>{ ...candidate }\<close> copies: those of an object (of two
  equal keys the later one stays, as in \<open>JSON.parse\<close>), the indices of an array.
\<close>

definition ownProps :: "jsval \<Rightarrow> AuditData" where
  "ownProps v =
     (case v of
        JObj kvs \<Rightarrow> map_of (rev kvs)
      | JArr xs \<Rightarrow> map_of (zip (map decimal [0..<length xs]) xs)
      | _ \<Rightarrow> Map.empty)"

text \<open>
  \<open>data?.candidate && typeof data.candidate === "object" ? data.candidate : null\<close>
\<close>

definition candidateOf :: "jsval \<Rightarrow> AuditData option" where
  "candidateOf data =
     (case data of
        JObj kvs \<Rightarrow>
          (case getProp (ownProps data) (str ''candidate'') of
             JObj c \<Rightarrow> Some (ownProps (JObj c))
           | JArr c \<Rightarrow> Some (ownProps (JArr c))
           | _ \<Rightarrow> None)
      | _ \<Rightarrow> None)"

text \<open>
  \<open>normalizeAuditData\<close> of the current client: every failure of the call ends in
  \<open>buildGuaranteedPayload(rawData, transcript, null)\<close>; the function has no other exit.
\<close>

definition normalizeAuditData ::
    "platform \<Rightarrow> jsval \<Rightarrow> jstring \<Rightarrow> (jstring \<times> jstring) list \<Rightarrow> AuditData \<Rightarrow> normalizeOutcome
      \<Rightarrow> AuditData" where
  "normalizeAuditData U sessionId nowISO transcript rawData res =
     (case res of
        FetchRejected \<Rightarrow> buildGuaranteedPayload U sessionId nowISO rawData transcript None
      | Response ok body \<Rightarrow>
          if \<not> ok then buildGuaranteedPayload U sessionId nowISO rawData transcript None
          else buildGuaranteedPayload U sessionId nowISO rawData transcript
                 (candidateOf (case body of None \<Rightarrow> JObj [] | Some data \<Rightarrow> data)))"

subsection \<open>\<open>submitToWebhook\<close>\<close>

text \<open>
  The outcome of the delivery \<open>fetch(endpoint, ...)\<close>: the promise rejects, with an
  \<open>AbortError\<close> or with another error, or a response arrives with its status.
\<close>

datatype deliveryOutcome = DeliveryRejected bool | Delivered nat

datatype submissionStatus = Idle | Submitting | Success | Failure

definition responseOk :: "nat \<Rightarrow> bool" where
  "responseOk status = (200 \<le> status \<and> status \<le> 299)"

text \<open>
  What a run of the pipeline leaves: the payloads handed to the delivery \<open>fetch\<close>, in
  order, and the final \<open>submissionStatus\<close>.
\<close>

record submission =
  deliveries :: "AuditData list"
  status :: submissionStatus

text \<open>
  \<open>submitToWebhook\<close> of the current client (the one that calls
  \<open>buildGuaranteedPayload\<close>): normalise, post once, set the status.
\<close>

definition submitToWebhook ::
    "platform \<Rightarrow> jsval \<Rightarrow> jstring \<Rightarrow> (jstring \<times> jstring) list \<Rightarrow> AuditData
      \<Rightarrow> normalizeOutcome \<Rightarrow> deliveryOutcome \<Rightarrow> submission" where
  "submitToWebhook U sessionId nowISO transcript rawData res del =
     (let payload = normalizeAuditData U sessionId nowISO transcript rawData res
      in \<lparr> deliveries = [payload],
           status = (case del of
                       Delivered st \<Rightarrow> if responseOk st then Success else Failure
                     | DeliveryRejected aborted \<Rightarrow> Failure) \<rparr>)"

text \<open>
  \<open>submitToWebhook(rawData, retryCount = 0)\<close> of the other copy of the client, whose
  \<open>normalizeAuditData\<close> calls the model itself and throws when that fails. One attempt is
  the payload of its normalisation (\<open>None\<close> when it throws) and the outcome of its
  delivery; \<open>attempts n\<close> is what attempt \<open>n\<close> meets.
  \<^verbatim>\<open>
  if (retryCount < 1 && error.name !== 'AbortError')
    return submitToWebhook(rawData, retryCount + 1);
  \<close>
\<close>

function submitToWebhook_retrying ::
    "(nat \<Rightarrow> AuditData option \<times> deliveryOutcome) \<Rightarrow> nat \<Rightarrow> submission" where
  "submitToWebhook_retrying attempts retryCount =
     (case attempts retryCount of
        (None, del) \<Rightarrow>
          if retryCount < 1 then submitToWebhook_retrying attempts (retryCount + 1)
          else \<lparr> deliveries = [], status = Failure \<rparr>
      | (Some payload, Delivered st) \<Rightarrow>
          if responseOk st then \<lparr> deliveries = [payload], status = Success \<rparr>
          else if retryCount < 1 then
            (let r = submitToWebhook_retrying attempts (retryCount + 1)
             in r\<lparr> deliveries := payload # deliveries r \<rparr>)
          else \<lparr> deliveries = [payload], status = Failure \<rparr>
      | (Some payload, DeliveryRejected aborted) \<Rightarrow>
          if retryCount < 1 \<and> \<not> aborted then
            (let r = submitToWebhook_retrying attempts (retryCount + 1)
             in r\<lparr> deliveries := payload # deliveries r \<rparr>)
          else \<lparr> deliveries = [payload], status = Failure \<rparr>)"
  by pat_completeness auto
termination
  by (relation "measure (\<lambda>(attempts, retryCount). 1 - retryCount)") auto

section \<open>The session and the handlers of the live channel\<close>

record Session =
  id_s :: jstring
  createdAt :: nat
  currentStep :: nat
  auditData :: AuditData
  transcript_s :: "(jstring \<times> jstring) list"
  isFinished :: bool
  consecutiveErrors :: nat

text \<open>
  The state the handlers work on. \<open>sessions\<close> is the React state, with every update handed
  to \<open>setSessions\<close> applied, in the order of the calls. \<open>sessionsRef\<close> is
  \<open>sessionsRef.current\<close>, the mirror of the state that an effect refreshes after a render:
  \<^verbatim>\<open>useEffect(() => { sessionsRef.current = sessions; }, [sessions]);\<close>
  so a handler that reads the mirror sees the list as the last render left it, without the
  updates made since. The updates pick the sessions whose id is
  \<open>currentSessionIdRef.current\<close>, which none of the handlers below changes.
  \<open>finishTimers\<close> counts the timeouts that the turn-complete handler has
  set and that have not fired yet; \<open>submitted\<close> holds the raw data of the
  \<open>submitToWebhook\<close> calls started so far (they run on their own; no handler waits for
  them).
\<close>

record App =
  sessions :: "Session list"
  sessionsRef :: "Session list"
  currentSessionIdRef :: "jstring option"
  isPendingFinalSpeechRef :: bool
  finishTimers :: nat
  submitted :: "AuditData list"

text \<open>The effect that refreshes the mirror.\<close>

definition render :: "App \<Rightarrow> App" where
  "render app = app\<lparr> sessionsRef := sessions app \<rparr>"

text \<open>
  \<open>updateCurrentSession(updates)\<close>; the partial session \<open>updates\<close> is given as the function
  that applies it to a session.
\<close>

definition updateCurrentSession :: "(Session \<Rightarrow> Session) \<Rightarrow> App \<Rightarrow> App" where
  "updateCurrentSession updates app =
     (case currentSessionIdRef app of
        None \<Rightarrow> app
      | Some cid \<Rightarrow>
          if cid = [] then app
          else app\<lparr> sessions := map (\<lambda>s. if id_s s = cid then updates s else s) (sessions app) \<rparr>)"

subsection \<open>\<open>handleRecordAnswer\<close>\<close>

text \<open>
  The arguments object of a \<open>record_answer\<close> call; an absent property is \<open>undefined\<close>. The
  handler destructures the object, so the call carries one.
\<close>

record RecordAnswerArgs =
  questionId :: jsval
  value_a :: jsval
  multiValues :: jsval
  autreValue :: jsval

fun findIndex :: "('a \<Rightarrow> bool) \<Rightarrow> 'a list \<Rightarrow> nat option" where
  "findIndex p [] = None"
| "findIndex p (x # xs) =
     (if p x then Some 0 else (case findIndex p xs of None \<Rightarrow> None | Some i \<Rightarrow> Some (Suc i)))"

text \<open>\<open>QUESTIONS.findIndex(q => q.id === questionId)\<close>\<close>

definition questionIndex :: "jsval \<Rightarrow> nat option" where
  "questionIndex qi = findIndex (\<lambda>q. JStr (id_q q) = qi) QUESTIONS"

text \<open>\<open>sessionsRef.current.find(s => s.id === currentSessionIdRef.current)\<close>\<close>

definition currentSession :: "App \<Rightarrow> Session option" where
  "currentSession app =
     (case currentSessionIdRef app of
        None \<Rightarrow> None
      | Some i \<Rightarrow> find (\<lambda>s. id_s s = i) (sessionsRef app))"

definition newData :: "platform \<Rightarrow> question \<Rightarrow> RecordAnswerArgs \<Rightarrow> AuditData \<Rightarrow> AuditData" where
  "newData U q args old =
     (let d = (case type_q q of
                 MULTI_SELECT \<Rightarrow> old(notionKey q \<mapsto> orElse (multiValues args) (JArr []))
               | BOOL \<Rightarrow>
                   old(notionKey q \<mapsto>
                     JBool (trim (toLowerCase U (toStringJS (value_a args)))
                              \<in> set [str ''true'', str ''oui'', str ''ok'', str ''accord'', str ''yes'']))
               | _ \<Rightarrow> old(notionKey q \<mapsto> value_a args))
      in case autreKey q of
           Some k \<Rightarrow> if truthy (autreValue args) \<and> k \<noteq> [] then d(k \<mapsto> autreValue args) else d
         | None \<Rightarrow> d)"

text \<open>
  \<open>handleRecordAnswer(args)\<close>: the acknowledgment string and the state after the call. The
  session is looked up in the mirror, and \<open>newData\<close> starts from the raw answers of the
  session found there; the update goes to the state.
\<close>

definition handleRecordAnswer :: "platform \<Rightarrow> RecordAnswerArgs \<Rightarrow> App \<Rightarrow> jstring \<times> App" where
  "handleRecordAnswer U args app =
     (case currentSessionIdRef app of
        None \<Rightarrow> (str ''Erreur session.'', app)
      | Some cid \<Rightarrow>
          if cid = [] then (str ''Erreur session.'', app)
          else
            (case questionIndex (questionId args) of
               None \<Rightarrow> (str ''ID de question invalide.'', app)
             | Some qIndex \<Rightarrow>
                 (let nextStep = qIndex + 1
                  in case currentSession app of
                       None \<Rightarrow> (str ''Session introuvable.'', app)
                     | Some cur \<Rightarrow>
                         (let q = QUESTIONS ! qIndex;
                              d = newData U q args (auditData cur);
                              app' = app\<lparr> sessions :=
                                map (\<lambda>s. if id_s s = cid
                                          then s\<lparr> auditData := d, currentStep := nextStep,
                                                  consecutiveErrors := 0 \<rparr>
                                          else s)
                                  (sessions app) \<rparr>
                          in if nextStep \<ge> length QUESTIONS
                             then (str ''[EVENT: AUDIT_COMPLETED]'',
                                   app'\<lparr> isPendingFinalSpeechRef := True,
                                         submitted := submitted app' @ [d] \<rparr>)
                             else (str ''[EVENT: RECORD_SUCCESS]'', app')))))"

subsection \<open>The end of a turn and the finishing timer\<close>

text \<open>\<open>s.includes(sub)\<close>\<close>

fun strIncludes :: "jstring \<Rightarrow> jstring \<Rightarrow> bool" where
  "strIncludes [] sub = (sub = [])"
| "strIncludes (c # cs) sub = (take (length sub) (c # cs) = sub \<or> strIncludes cs sub)"

text \<open>
  \<open>isErrorResponse\<close>: the lower-cased output includes \<open>desole\<close> (written with its two
  e-acute) and one of \<open>comprends\<close>, \<open>compris\<close>.
\<close>

definition isErrorResponse :: "platform \<Rightarrow> jstring \<Rightarrow> bool" where
  "isErrorResponse U output =
     (strIncludes (toLowerCase U output) (str ''d'' @ [233] @ str ''sol'' @ [233])
      \<and> (strIncludes (toLowerCase U output) (str ''comprends'')
         \<or> strIncludes (toLowerCase U output) (str ''compris'')))"

text \<open>
  The \<open>turnComplete\<close> branch of \<open>onmessage\<close>. \<open>inputText\<close> and \<open>outputText\<close> are the
  transcriptions gathered since the last turn (\<open>currentInputTextRef.current\<close>,
  \<open>currentOutputTextRef.current\<close>). \<open>addTurn\<close> is what the branch does to the current
  session: the turn goes to the transcript and the error counter is kept up. Then, when the
  final speech is pending, the flag is cleared and a timeout is set whose callback is
  \<open>updateCurrentSession({ isFinished: true })\<close>.
\<close>

definition addTurn :: "platform \<Rightarrow> jstring \<Rightarrow> jstring \<Rightarrow> Session \<Rightarrow> Session" where
  "addTurn U input output s =
     s\<lparr> transcript_s :=
          transcript_s s
            @ (if input \<noteq> [] then [(str ''User'', input)] else [])
            @ (if output \<noteq> [] then [(str ''Agent'', output)] else []),
        consecutiveErrors :=
          (if isErrorResponse U output then consecutiveErrors s + 1
           else if length input > 2 then 0
           else consecutiveErrors s) \<rparr>"

definition onTurnComplete :: "platform \<Rightarrow> jstring \<Rightarrow> jstring \<Rightarrow> App \<Rightarrow> App" where
  "onTurnComplete U inputText outputText app =
     (let input = trim inputText;
          output = trim outputText;
          app1 =
            (if input \<noteq> [] \<or> output \<noteq> [] then
               app\<lparr> sessions :=
                 map (\<lambda>s. if Some (id_s s) = currentSessionIdRef app
                           then addTurn U input output s else s)
                   (sessions app) \<rparr>
             else app)
      in if isPendingFinalSpeechRef app1
         then app1\<lparr> isPendingFinalSpeechRef := False, finishTimers := finishTimers app1 + 1 \<rparr>
         else app1)"

text \<open>One of the timeouts fires.\<close>

definition finishTimerFires :: "App \<Rightarrow> App" where
  "finishTimerFires app =
     (if finishTimers app = 0 then app
      else updateCurrentSession (\<lambda>s. s\<lparr> isFinished := True \<rparr>)
             (app\<lparr> finishTimers := finishTimers app - 1 \<rparr>))"

subsection \<open>Runs\<close>

text \<open>
  What happens to the state between the start of an interview and its end: a
  \<open>record_answer\<close> call, the end of a turn, a finishing timeout that fires, a render that
  refreshes the mirror. Several calls of one message run with no render in between. A run
  is any sequence of these; its trace is the list of the states, from the first one on.
\<close>

datatype event = RecordAnswer RecordAnswerArgs | TurnComplete jstring jstring | FinishTimer | Render

fun step :: "platform \<Rightarrow> App \<Rightarrow> event \<Rightarrow> App" where
  "step U app (RecordAnswer args) = snd (handleRecordAnswer U args app)"
| "step U app (TurnComplete inputText outputText) = onTurnComplete U inputText outputText app"
| "step U app FinishTimer = finishTimerFires app"
| "step U app Render = render app"

fun run :: "platform \<Rightarrow> App \<Rightarrow> event list \<Rightarrow> App list" where
  "run U app [] = [app]"
| "run U app (e # es) = app # run U (step U app e) es"
section \<open>Playback scheduling (the \<open>onmessage\<close> handler of the live channel)\<close>

text \<open>
  The handler keeps one cursor, \<open>nextStartTimeRef.current\<close>. For each decoded chunk it runs
  \<^verbatim>\<open>
  nextStartTimeRef.current = Math.max(nextStartTimeRef.current, ctx.currentTime);
  source.start(nextStartTimeRef.current);
  nextStartTimeRef.current += audioBuffer.duration;
  \<close>
  Times are seconds. They are modelled as reals: the properties below only use the order
  and the monotonicity of addition, which the rounded addition of doubles keeps.
\<close>

definition scheduleChunk :: "real \<Rightarrow> real \<Rightarrow> real \<Rightarrow> real \<times> real" where
  "scheduleChunk nextStartTime currentTime duration =
     (let start = max nextStartTime currentTime in (start, start + duration))"

text \<open>
  A run of the handler over the chunks in arrival order; a chunk is the pair of the playback
  clock read when it is scheduled and the duration of its buffer. The result is the list of
  start times handed to \<open>source.start\<close>.
\<close>

fun startTimes :: "real \<Rightarrow> (real \<times> real) list \<Rightarrow> real list" where
  "startTimes cursor [] = []"
| "startTimes cursor ((now, d) # cs) =
     (case scheduleChunk cursor now d of (start, cursor') \<Rightarrow> start # startTimes cursor' cs)"

text \<open>Three chunks: the second arrives while the first plays, the third after a pause.\<close>

definition demoChunks :: "(real \<times> real) list" where
  "demoChunks = [(1, 2), (2, 1), (5, 1)]"

section \<open>The vocabulary of the properties\<close>

text \<open>
  The constraint of an entry's kind: one allowed label; a list of allowed labels no longer
  than the maximum; a boolean; a string.
\<close>

definition isAllowedLabel :: "question \<Rightarrow> jsval \<Rightarrow> bool" where
  "isAllowedLabel q v = (case v of JStr s \<Rightarrow> s \<in> set (getAllowed q) | _ \<Rightarrow> False)"

definition kindConstraint :: "question \<Rightarrow> jsval \<Rightarrow> bool" where
  "kindConstraint q v =
     (case type_q q of
        SELECT \<Rightarrow> isAllowedLabel q v
      | MULTI_SELECT \<Rightarrow>
          (case v of JArr xs \<Rightarrow> list_all (isAllowedLabel q) xs \<and> length xs \<le> maxItemsOf q | _ \<Rightarrow> False)
      | BOOL \<Rightarrow> (case v of JBool b \<Rightarrow> True | _ \<Rightarrow> False)
      | STRING \<Rightarrow> (case v of JStr s \<Rightarrow> True | _ \<Rightarrow> False))"

text \<open>
  What Stage B gives an entry, \<open>input\<close> being what \<open>base\<close> holds under the key when the
  loop starts: the kind's constraint for the three closed kinds; for free text the input
  itself, or the empty string when it is \<open>undefined\<close> or \<open>null\<close>.
\<close>

definition entryGuarantee :: "question \<Rightarrow> jsval \<Rightarrow> jsval \<Rightarrow> bool" where
  "entryGuarantee q input v =
     (case type_q q of
        STRING \<Rightarrow> v = (if isNullish input then JStr [] else input)
      | _ \<Rightarrow> kindConstraint q v)"


text \<open>The keys \<open>buildGuaranteedPayload\<close> writes after the loop.\<close>

definition metaKeys :: "jstring list" where
  "metaKeys = [kSessionId, kSource, kDate, kDateQuoted, kExecutionMode, kNom]"

text \<open>The scenario of the maturity question q04: the input and the option expected.\<close>

definition scenarioInput :: jstring where
  "scenarioInput = str ''on teste un peu '' @ [224] @ str '' petite '' @ [233] @ str ''chelle''"

definition smallScaleOption :: jstring where
  "smallScaleOption =
     str ''Nous exp'' @ [233] @ str ''rimentons les nouvelles technologies '' @ [224]
       @ str '' petite '' @ [233] @ str ''chelle et de mani'' @ [232] @ str ''re informelle.''"

text \<open>
  The text \<open>ensureSelect\<close> works on (its \<open>vRaw\<close>), and the keyword scores that step 4
  computes from it.
\<close>

definition answerText :: "jsval \<Rightarrow> jstring" where
  "answerText value = trim (toStringJS (nullish value (JStr [])))"





text \<open>The normal form of the scenario input.\<close>

definition scenarioNorm :: jstring where
  "scenarioNorm = str ''on teste un peu a petite echelle''"

text \<open>Concrete inputs of the examples below.\<close>

definition demoSessionId :: jsval where
  "demoSessionId = JStr (str ''1767225600000'')"

definition demoNow :: jstring where
  "demoNow = str ''2026-01-01T00:00:00.000Z''"

definition laterNow :: jstring where
  "laterNow = str ''2026-01-01T00:05:00.000Z''"

text \<open>A candidate that proposes the number 42 as the respondent's e-mail.\<close>

definition numericEmailCandidate :: AuditData where
  "numericEmailCandidate = [kEmail \<mapsto> JNum (str ''42'')]"

text \<open>
  The escape key of q06; a candidate that proposes the empty string for it; raw answers
  where the respondent's position is "chef de projet".
\<close>

definition positionAutreKey :: jstring where
  "positionAutreKey = str ''Statut R'' @ [233] @ str ''pondant '' @ [8211] @ str '' Autre''"

definition emptyAutreCandidate :: AuditData where
  "emptyAutreCandidate = [positionAutreKey \<mapsto> JStr []]"

definition chefDeProjet :: AuditData where
  "chefDeProjet = [notionKey q06 \<mapsto> JStr (str ''chef de projet'')]"


text \<open>A candidate with a key of its own, outside the schema.\<close>

definition noteKey :: jstring where
  "noteKey = str ''note''"

definition noteCandidate :: AuditData where
  "noteCandidate = [noteKey \<mapsto> JStr (str ''RAS'')]"

text \<open>
  The session that the updates of the handlers go to: the one of the current id in the
  state. The question pointer is its \<open>currentStep\<close>; it is finished when its \<open>isFinished\<close>
  is set; its raw answers are its \<open>auditData\<close>.
\<close>

definition storedSession :: "App \<Rightarrow> Session option" where
  "storedSession app =
     (case currentSessionIdRef app of
        None \<Rightarrow> None
      | Some i \<Rightarrow> find (\<lambda>s. id_s s = i) (sessions app))"

definition pointer :: "App \<Rightarrow> nat" where
  "pointer app = (case storedSession app of None \<Rightarrow> 0 | Some s \<Rightarrow> currentStep s)"

definition finished :: "App \<Rightarrow> bool" where
  "finished app = (case storedSession app of None \<Rightarrow> False | Some s \<Rightarrow> isFinished s)"

definition rawAnswer :: "App \<Rightarrow> AuditData" where
  "rawAnswer app = (case storedSession app of None \<Rightarrow> Map.empty | Some s \<Rightarrow> auditData s)"

text \<open>
  A session is active when it is the current one and is not finished: that is the session
  \<open>startInterview\<close> resumes, any other case starting a new one
  (\<open>if (!sessionToUse || sessionToUse.isFinished) sessionToUse = createNewSession()\<close>).
\<close>

definition active :: "App \<Rightarrow> bool" where
  "active app =
     (case currentSessionIdRef app of
        None \<Rightarrow> False
      | Some i \<Rightarrow> i \<noteq> [] \<and> storedSession app \<noteq> None \<and> \<not> finished app)"

text \<open>
  The two tests \<open>handleRecordAnswer\<close> makes on the session: the current id is not empty, and
  the list it reads has a session of that id.
\<close>

definition sessionFound :: "App \<Rightarrow> bool" where
  "sessionFound app =
     (case currentSessionIdRef app of
        None \<Rightarrow> False
      | Some i \<Rightarrow> i \<noteq> [] \<and> currentSession app \<noteq> None)"

definition errorResults :: "jstring list" where
  "errorResults = [str ''Erreur session.'', str ''ID de question invalide.'', str ''Session introuvable.'']"

text \<open>The vocabulary of the boolean answers of \<open>record_answer\<close>.\<close>

definition yesWords :: "jstring list" where
  "yesWords = [str ''true'', str ''oui'', str ''ok'', str ''accord'', str ''yes'']"

text \<open>
  A run never steps back when every \<open>record_answer\<close> call that the handler accepts names a
  question no more than one place before the pointer of the state it meets: the question
  just answered, or a later one.
\<close>

fun neverBack :: "platform \<Rightarrow> App \<Rightarrow> event list \<Rightarrow> bool" where
  "neverBack U app [] = True"
| "neverBack U app (e # es) =
     ((case e of
         RecordAnswer a \<Rightarrow>
           (case questionIndex (questionId a) of
              None \<Rightarrow> True
            | Some i \<Rightarrow> sessionFound app \<longrightarrow> pointer app \<le> i + 1)
       | _ \<Rightarrow> True)
      \<and> neverBack U (step U app e) es)"

text \<open>
  A session that has reached the sixth question, rendered; the same session once finished;
  a call with a question id and a value.
\<close>

definition sixthQuestion :: Session where
  "sixthQuestion =
     \<lparr> id_s = str ''1767225600000'', createdAt = 1767225600000, currentStep = 5,
       auditData = Map.empty, transcript_s = [], isFinished = False, consecutiveErrors = 0 \<rparr>"

definition sessionAtSix :: App where
  "sessionAtSix =
     \<lparr> sessions = [sixthQuestion], sessionsRef = [sixthQuestion],
       currentSessionIdRef = Some (str ''1767225600000''),
       isPendingFinalSpeechRef = False, finishTimers = 0, submitted = [] \<rparr>"

definition finishedAtSix :: App where
  "finishedAtSix =
     sessionAtSix\<lparr> sessions := [sixthQuestion\<lparr> isFinished := True \<rparr>],
                   sessionsRef := [sixthQuestion\<lparr> isFinished := True \<rparr>] \<rparr>"

definition answer :: "string \<Rightarrow> string \<Rightarrow> RecordAnswerArgs" where
  "answer qid v =
     \<lparr> questionId = JStr (str qid), value_a = JStr (str v), multiValues = JUndefined,
       autreValue = JUndefined \<rparr>"

text \<open>
  A run to the end: the sixth question is answered, the mirror is refreshed, the last
  question is answered, the turn of the final speech ends and the timeout fires.
\<close>

definition runToEnd :: "event list" where
  "runToEnd =
     [RecordAnswer (answer ''q06'' ''Autre''), Render, RecordAnswer (answer ''q21'' ''oui''),
      TurnComplete [] (str ''Merci pour votre participation''), FinishTimer]"

text \<open>
  Two attempts as the retrying client can meet them: the normalisation succeeds both times;
  the endpoint answers the first delivery with HTTP 500 and the second with HTTP 200.
\<close>

definition serverErrorThenOk :: "nat \<Rightarrow> AuditData option \<times> deliveryOutcome" where
  "serverErrorThenOk n = (Some chefDeProjet, if n = 0 then Delivered 500 else Delivered 200)"

section \<open>Evaluation rules\<close>

text \<open>
  The character tests are unfolded on numerals only, so that a closed term evaluates and an
  open one stays as it is.
\<close>

lemmas char_eval =
  isWhiteSpace_def [of "numeral k" for k] isDigit_def [of "numeral k" for k]
  isLowerAlnum_def [of "numeral k" for k] isWordChar_def [of "numeral k" for k]
  isCombining_def [of "numeral k" for k] lower1_def [of "numeral k" for k]
  decomp1_def [of "numeral k" for k] bothCases_def [of "numeral k" for k] latin1Decomp_def

lemmas js_eval = str_def trim_def char_eval
  atBoundary_def rxTest_def rxFull_def lit_def liti_def eacute_i_def sp_def sp0_def wordsRx_def
  getProp_def truthy_def isNullish_def nullish_def parseDigits_def ucd_def

lemmas kw_defs = kwExplore_def kwNoStrategy_def kwProject_def kwNotExtended_def
  kwDeployment_def kwStructured_def kwIntegrated_def kwStimulate_def kwDataStructured_def kwDataSiloed_def
  rxDonnees_def

section \<open>\<open>ensureSelect\<close> answers with an allowed label\<close>

lemma autreLabel_allowed: "hasAutre q \<Longrightarrow> autreLabel q \<in> set (getAllowed q)"
  by (auto simp: hasAutre_def autreLabel_def split: option.splits if_splits)

lemma hasAutre_nonempty: "hasAutre q \<Longrightarrow> getAllowed q \<noteq> []"
  using autreLabel_allowed by fastforce

lemma firstOption_allowed: "opts \<noteq> [] \<Longrightarrow> firstOption opts \<in> set opts"
  by (cases opts) (simp_all add: firstOption_def)

lemma optByNorm_allowed: "optByNorm U opts v = Some o1 \<Longrightarrow> o1 \<in> set opts"
  unfolding optByNorm_def by (auto dest!: map_of_SomeD)


lemma bestIdx_range: "bestIdx sc \<in> {0, 1, 2, 3}"
  by (simp add: bestIdx_def)

lemma maturityChoice_allowed: "maturityChoice q opts v = Some o1 \<Longrightarrow> o1 \<in> set opts"
proof -
  assume a: "maturityChoice q opts v = Some o1"
  then have len: "4 \<le> length opts" and o1: "o1 = opts ! bestIdx (scoreByIndex (notionKey q) v)"
    by (auto simp: maturityChoice_def Let_def split: if_splits)
  from bestIdx_range [of "scoreByIndex (notionKey q) v"] len
  have "bestIdx (scoreByIndex (notionKey q) v) < length opts" by auto
  with o1 show ?thesis by simp
qed

lemma foldl_pick:
  "fst (foldl (\<lambda>(best, bestScore) (o1, sc). if sc > bestScore then (o1, sc) else (best, bestScore)) (b, s) xs)
     \<in> insert b (fst ` set xs)"
proof (induction xs arbitrary: b s)
  case Nil
  then show ?case by simp
next
  case (Cons x xs)
  obtain o1 sc where x: "x = (o1, sc)" by (cases x)
  show ?case
  proof (cases "sc > s")
    case True
    with Cons.IH [of o1 sc] x show ?thesis by auto
  next
    case False
    with Cons.IH [of b s] x show ?thesis by auto
  qed
qed

lemma nearestOption_allowed: "opts \<noteq> [] \<Longrightarrow> nearestOption U opts v \<in> set opts"
proof -
  assume ne: "opts \<noteq> []"
  have "nearestOption U opts v \<in> insert (firstOption opts) (fst ` set (zip opts (optionScores U opts v)))"
    unfolding nearestOption_def by (rule foldl_pick)
  moreover have "fst ` set (zip opts (optionScores U opts v)) \<subseteq> set opts"
    by (auto dest: set_zip_leftD)
  ultimately show ?thesis using firstOption_allowed [OF ne] by auto
qed

lemma ensureSelect_allowed:
  assumes "getAllowed q \<noteq> []"
  shows "fst (ensureSelect U q base v) \<in> set (getAllowed q)"
  using assms
  by (auto simp: ensureSelect_def Let_def NORMALIZATION_FALLBACKS_BY_NOTION_KEY_def
        autreLabel_allowed firstOption_allowed nearestOption_allowed
      dest: optByNorm_allowed maturityChoice_allowed
      split: option.splits)

section \<open>\<open>ensureMultiSelect\<close> answers with allowed labels; what the two functions write\<close>

lemma storeAutre_other: "autreKey q \<noteq> Some k \<Longrightarrow> storeAutre q base t k = base k"
  by (auto simp: storeAutre_def split: option.splits)

lemma storeAutre_truthy: "truthy (getProp base k) \<Longrightarrow> storeAutre q base t k = base k"
  by (auto simp: storeAutre_def split: option.splits)

lemma ensureSelect_base:
  "snd (ensureSelect U q base v) = base \<or> (\<exists>t. snd (ensureSelect U q base v) = storeAutre q base t)"
  by (auto simp: ensureSelect_def Let_def split: option.splits)

lemma ensureSelect_other:
  "autreKey q \<noteq> Some k \<or> truthy (getProp base k) \<Longrightarrow> snd (ensureSelect U q base v) k = base k"
  using ensureSelect_base [of U q base v] storeAutre_other storeAutre_truthy by metis

lemma tokenToOptionByIndex_allowed: "tokenToOptionByIndex opts t = Some o1 \<Longrightarrow> o1 \<in> set opts"
  by (auto simp: tokenToOptionByIndex_def Let_def split: list.splits if_splits)

lemma selectToken_allowed: "set selected \<subseteq> set opts \<Longrightarrow> set (selectToken opts selected t) \<subseteq> set opts"
  by (auto simp: selectToken_def pushUnique_def dest: tokenToOptionByIndex_allowed
      split: option.splits if_splits)

lemma foldl_selectToken_allowed:
  "set selected \<subseteq> set opts \<Longrightarrow> set (foldl (selectToken opts) selected ts) \<subseteq> set opts"
proof (induction ts arbitrary: selected)
  case Nil
  then show ?case by simp
next
  case (Cons t ts)
  from Cons.prems have "set (selectToken opts selected t) \<subseteq> set opts" by (rule selectToken_allowed)
  then have "set (foldl (selectToken opts) (selectToken opts selected t) ts) \<subseteq> set opts"
    by (rule Cons.IH)
  then show ?case by simp
qed

lemma length_addScored: "length (addScored s i w) = length s"
  by (simp add: addScored_def)

lemma length_hit: "length (hit t alts i w s) = length s"
  by (simp add: hit_def length_addScored)

lemma length_scoreObjectifs: "length (scoreObjectifs t s) = length s"
  by (simp add: scoreObjectifs_def Let_def length_hit)

lemma length_scoreDefis: "length (scoreDefis t s) = length s"
  by (simp add: scoreDefis_def Let_def length_hit)

lemma length_scoreAttentes: "length (scoreAttentes t s) = length s"
  by (simp add: scoreAttentes_def Let_def length_hit)

lemma length_scored: "length (scored U q opts text) = length opts"
  by (simp add: scored_def Let_def length_scoreObjectifs length_scoreDefis length_scoreAttentes)

lemma ranked_allowed: "length sc = length opts \<Longrightarrow> set (ranked opts maxI sc) \<subseteq> set opts"
proof
  fix x assume len: "length sc = length opts" and "x \<in> set (ranked opts maxI sc)"
  then obtain idx score where
    m: "(idx, score) \<in> set (take maxI (sort_key (\<lambda>(idx, score). - int score)
          (filter (\<lambda>(idx, score). score > 0) (zip [0..<length sc] sc))))"
    and x: "x = opts ! idx"
    by (auto simp: ranked_def)
  from m have "(idx, score) \<in> set (zip [0..<length sc] sc)"
    by (auto dest!: in_set_takeD)
  then have "idx \<in> set [0..<length sc]" by (rule set_zip_leftD)
  with len have "idx < length opts" by simp
  with x show "x \<in> set opts" by simp
qed

lemma length_ranked: "length (ranked opts maxI sc) \<le> maxI"
  by (simp add: ranked_def)

lemma maxItemsOf_pos: "getAllowed q \<noteq> [] \<Longrightarrow> 1 \<le> maxItemsOf q"
  by (cases "getAllowed q") (auto simp: maxItemsOf_def split: option.splits)

lemma ensureMultiSelect_allowed: "set (fst (ensureMultiSelect U q base v)) \<subseteq> set (getAllowed q)"
proof -
  have sel: "set (foldl (selectToken (getAllowed q)) [] (parseTokens v)) \<subseteq> set (getAllowed q)"
    by (rule foldl_selectToken_allowed) simp
  have rk: "\<And>t. set (ranked (getAllowed q) (maxItemsOf q) (scored U q (getAllowed q) t)) \<subseteq> set (getAllowed q)"
    by (rule ranked_allowed) (rule length_scored)
  show ?thesis
    using sel rk autreLabel_allowed [of q]
    by (auto simp: ensureMultiSelect_def Let_def dest: in_set_takeD)
qed

lemma ensureMultiSelect_length: "length (fst (ensureMultiSelect U q base v)) \<le> maxItemsOf q"
  using maxItemsOf_pos [OF hasAutre_nonempty, of q]
  by (auto simp: ensureMultiSelect_def Let_def length_ranked)

lemma ensureMultiSelect_base:
  "snd (ensureMultiSelect U q base v) = base \<or> (\<exists>t. snd (ensureMultiSelect U q base v) = storeAutre q base t)"
  by (auto simp: ensureMultiSelect_def Let_def)

lemma ensureMultiSelect_other:
  "autreKey q \<noteq> Some k \<or> truthy (getProp base k) \<Longrightarrow> snd (ensureMultiSelect U q base v) k = base k"
  using ensureMultiSelect_base [of U q base v] storeAutre_other storeAutre_truthy by metis

section \<open>The loop over the catalogue\<close>

lemma enforce_other:
  assumes "k \<noteq> notionKey q" and "autreKey q \<noteq> Some k \<or> truthy (getProp base k)"
  shows "enforce U base q k = base k"
proof (cases "type_q q")
  case SELECT
  with assms ensureSelect_other [of q k base U "getProp base (notionKey q)"] show ?thesis
    by (simp add: enforce_def Let_def split_beta)
next
  case MULTI_SELECT
  with assms ensureMultiSelect_other [of q k base U "getProp base (notionKey q)"] show ?thesis
    by (simp add: enforce_def Let_def split_beta)
next
  case STRING
  with assms show ?thesis by (simp add: enforce_def Let_def)
next
  case BOOL
  with assms show ?thesis by (simp add: enforce_def Let_def)
qed

lemma enforce_guarantee:
  assumes "type_q q = SELECT \<longrightarrow> getAllowed q \<noteq> []"
  shows "entryGuarantee q (getProp base (notionKey q)) (getProp (enforce U base q) (notionKey q))"
proof (cases "type_q q")
  case SELECT
  with assms have "fst (ensureSelect U q base (getProp base (notionKey q))) \<in> set (getAllowed q)"
    by (simp add: ensureSelect_allowed)
  with SELECT show ?thesis
    by (simp add: enforce_def Let_def entryGuarantee_def kindConstraint_def isAllowedLabel_def getProp_def
         split_beta)
next
  case MULTI_SELECT
  have "set (fst (ensureMultiSelect U q base (getProp base (notionKey q)))) \<subseteq> set (getAllowed q)"
    and "length (fst (ensureMultiSelect U q base (getProp base (notionKey q)))) \<le> maxItemsOf q"
    by (rule ensureMultiSelect_allowed, rule ensureMultiSelect_length)
  with MULTI_SELECT show ?thesis
    by (auto simp: enforce_def Let_def entryGuarantee_def kindConstraint_def isAllowedLabel_def getProp_def
          list_all_iff split_beta)
next
  case STRING
  then show ?thesis
    by (simp add: enforce_def Let_def entryGuarantee_def getProp_def)
next
  case BOOL
  then show ?thesis
    by (simp add: enforce_def Let_def entryGuarantee_def kindConstraint_def getProp_def)
qed

lemma foldl_enforce_other:
  "k \<notin> notionKey ` set qs \<Longrightarrow> Some k \<notin> autreKey ` set qs \<or> truthy (getProp base k)
   \<Longrightarrow> foldl (enforce U) base qs k = base k"
proof (induction qs arbitrary: base)
  case Nil
  then show ?case by simp
next
  case (Cons a qs)
  from Cons.prems have step: "enforce U base a k = base k"
    by (intro enforce_other) auto
  then have same: "getProp (enforce U base a) k = getProp base k" by (simp add: getProp_def)
  from Cons.prems have "k \<notin> notionKey ` set qs" by simp
  moreover from Cons.prems same have "Some k \<notin> autreKey ` set qs \<or> truthy (getProp (enforce U base a) k)"
    by auto
  ultimately have "foldl (enforce U) (enforce U base a) qs k = enforce U base a k" by (rule Cons.IH)
  with step show ?case by simp
qed

text \<open>
  In a catalogue whose notion keys are distinct and are no escape keys, the entry of a
  question after the loop is the one its own round wrote, and that round read the input the
  loop started with.
\<close>

lemma foldl_enforce_entry:
  assumes "distinct (map notionKey qs)"
    and "\<forall>q\<in>set qs. \<forall>q'\<in>set qs. autreKey q' \<noteq> Some (notionKey q)"
    and "q \<in> set qs"
  shows "\<exists>b. getProp b (notionKey q) = getProp base (notionKey q)
           \<and> foldl (enforce U) base qs (notionKey q) = enforce U b q (notionKey q)"
  using assms
proof (induction qs arbitrary: base)
  case Nil
  then show ?case by simp
next
  case (Cons a qs)
  show ?case
  proof (cases "q = a")
    case True
    from Cons.prems(1) have "notionKey a \<notin> notionKey ` set qs" by simp
    moreover from Cons.prems(2) have "Some (notionKey a) \<notin> autreKey ` set qs" by force
    ultimately have "foldl (enforce U) (enforce U base a) qs (notionKey a) = enforce U base a (notionKey a)"
      by (intro foldl_enforce_other) auto
    with True show ?thesis by auto
  next
    case False
    with Cons.prems(3) have q: "q \<in> set qs" by simp
    then have "notionKey q \<in> notionKey ` set qs" by (rule imageI)
    moreover from Cons.prems(1) have "notionKey a \<notin> notionKey ` set qs" by simp
    ultimately have ne: "notionKey q \<noteq> notionKey a" by metis
    from Cons.prems(2) q have "autreKey a \<noteq> Some (notionKey q)" by simp
    with ne have "enforce U base a (notionKey q) = base (notionKey q)"
      by (intro enforce_other) auto
    then have same: "getProp (enforce U base a) (notionKey q) = getProp base (notionKey q)"
      by (simp add: getProp_def)
    from Cons.prems have "\<exists>b. getProp b (notionKey q) = getProp (enforce U base a) (notionKey q)
        \<and> foldl (enforce U) (enforce U base a) qs (notionKey q) = enforce U b q (notionKey q)"
      by (intro Cons.IH q) auto
    with same show ?thesis by auto
  qed
qed



lemma attachMeta_other: "k \<notin> set metaKeys \<Longrightarrow> attachMeta sessionId nowISO base k = base k"
  by (auto simp: attachMeta_def metaKeys_def Let_def split: jsval.splits)

subsection \<open>Facts of the catalogue\<close>

lemmas questions_defs = QUESTIONS_def q01_def q02_def q03_def q04_def q05_def q06_def q07_def q08_def q09_def q10_def q11_def q12_def q13_def q14_def q15_def q16_def q17_def q18_def q19_def q20_def q21_def

lemma notionKeys:
  "map notionKey QUESTIONS =
    [str ''Maturit'' @ [233] @ str '' '' @ [8211] @ str '' Strat'' @ [233] @ str ''gie'',
     str ''Maturit'' @ [233] @ str '' '' @ [8211] @ str '' Donn'' @ [233] @ str ''es-Infrastructure'',
     str ''Maturit'' @ [233] @ str '' '' @ [8211] @ str '' Comp'' @ [233] @ str ''tences'',
     str ''Maturit'' @ [233] @ str '' '' @ [8211] @ str '' Adoption techno'',
     str ''Maturit'' @ [233] @ str '' '' @ [8211] @ str '' Gouvernance'',
     str ''Statut R'' @ [233] @ str ''pondant - Position'',
     str ''Service-d'' @ [233] @ str ''pt Rep'',
     str ''Intitul'' @ [233] @ str '' poste Rep'',
     str ''Secteur activit'' @ [233],
     str ''Sous-secteur niche'',
     str ''Nbr employ'' @ [233] @ str ''s'',
     str ''CA'',
     str ''Type offres'',
     str ''BtoB-BtoC'',
     str ''Nbr Entit'' @ [233] @ str ''s'',
     str ''March'' @ [233] @ str '' desservi'',
     str ''Objectifs IA-Digital'',
     str ''D'' @ [233] @ str ''fis prioritaires (max 3)'',
     str ''Attentes IA-Digital'',
     str ''e-mail r'' @ [233] @ str ''pondant'',
     str ''Consentement RGPD (Oui/Non)'']"
  by (simp add: questions_defs)

lemma autreKeys:
  "map autreKey QUESTIONS =
    [None,
     None,
     None,
     None,
     None,
     Some (str ''Statut R'' @ [233] @ str ''pondant '' @ [8211] @ str '' Autre''),
     Some (str ''Service-d'' @ [233] @ str ''pt Rep Autre''),
     Some (str ''Intitul'' @ [233] @ str '' poste Rep-Autre''),
     Some (str ''Secteur activit'' @ [233] @ str ''-Autre''),
     Some (str ''Sous-secteur-Autre''),
     None,
     None,
     Some (str ''Type offres-Autre''),
     None,
     Some (str ''Nbr Entit'' @ [233] @ str ''s-Autre''),
     Some (str ''March'' @ [233] @ str '' desservi '' @ [8211] @ str '' Autre''),
     Some (str ''Objectifs IA-Digital-Autre''),
     Some (str ''D'' @ [233] @ str ''fis '' @ [8211] @ str '' Autre''),
     Some (str ''Attentes IA-Digital-Autre''),
     None,
     None]"
  by (simp add: questions_defs)

lemma types:
  "map type_q QUESTIONS =
    [SELECT, SELECT, SELECT, SELECT, SELECT, SELECT, SELECT, SELECT, SELECT, SELECT, SELECT, SELECT, SELECT, SELECT, SELECT, SELECT, MULTI_SELECT, MULTI_SELECT, MULTI_SELECT, STRING, BOOL]"
  by (simp add: questions_defs)

lemmas metaKeys_defs = metaKeys_def kSessionId_def kSource_def kDate_def kDateQuoted_def
  kExecutionMode_def kNom_def

lemma str_empty_iff: "str s = [] \<longleftrightarrow> s = []" "[] = str s \<longleftrightarrow> s = []"
  by (auto simp: str_def)

lemma notionKeys_distinct: "distinct (map notionKey QUESTIONS)"
  unfolding notionKeys by (simp add: str_def)

lemma autreKeys_apart: "\<forall>q\<in>set QUESTIONS. \<forall>q'\<in>set QUESTIONS. autreKey q' \<noteq> Some (notionKey q)"
proof -
  have "set (map autreKey QUESTIONS) \<inter> Some ` set (map notionKey QUESTIONS) = {}"
    unfolding notionKeys autreKeys by (simp add: str_def)
  then show ?thesis by force
qed

lemma notionKeys_not_meta: "\<forall>q\<in>set QUESTIONS. notionKey q \<notin> set metaKeys"
proof -
  have "set (map notionKey QUESTIONS) \<inter> set metaKeys = {}"
    unfolding notionKeys by (simp add: metaKeys_defs str_def)
  then show ?thesis by force
qed

lemma select_options:
  "\<forall>q\<in>set QUESTIONS. type_q q = SELECT \<longrightarrow> getAllowed q \<noteq> [] \<and> [] \<notin> set (getAllowed q)"
  by (simp add: questions_defs getAllowed_def str_empty_iff)


section \<open>Stage B: what the payload guarantees\<close>

lemma payload_schema_key:
  "q \<in> set QUESTIONS \<Longrightarrow>
   buildGuaranteedPayload U sessionId nowISO rawData tr candidate (notionKey q)
     = foldl (enforce U) (rawData ++ (case candidate of None \<Rightarrow> Map.empty | Some c \<Rightarrow> c)) QUESTIONS
         (notionKey q)"
  using notionKeys_not_meta by (simp add: buildGuaranteedPayload_def attachMeta_other)

lemma payload_round:
  assumes "q \<in> set QUESTIONS"
  shows "\<exists>b. getProp b (notionKey q)
               = getProp (rawData ++ (case candidate of None \<Rightarrow> Map.empty | Some c \<Rightarrow> c)) (notionKey q)
           \<and> getProp (buildGuaranteedPayload U sessionId nowISO rawData tr candidate) (notionKey q)
               = getProp (enforce U b q) (notionKey q)"
proof -
  from foldl_enforce_entry [OF notionKeys_distinct autreKeys_apart assms]
  obtain b where "getProp b (notionKey q)
        = getProp (rawData ++ (case candidate of None \<Rightarrow> Map.empty | Some c \<Rightarrow> c)) (notionKey q)"
    and "foldl (enforce U) (rawData ++ (case candidate of None \<Rightarrow> Map.empty | Some c \<Rightarrow> c)) QUESTIONS
          (notionKey q) = enforce U b q (notionKey q)"
    by blast
  with payload_schema_key [OF assms] show ?thesis
    by (auto simp: getProp_def)
qed

lemma payload_entry:
  assumes "q \<in> set QUESTIONS"
  shows "entryGuarantee q
           (getProp (rawData ++ (case candidate of None \<Rightarrow> Map.empty | Some c \<Rightarrow> c)) (notionKey q))
           (getProp (buildGuaranteedPayload U sessionId nowISO rawData tr candidate) (notionKey q))"
proof -
  from payload_round [OF assms] obtain b where
    b: "getProp b (notionKey q)
        = getProp (rawData ++ (case candidate of None \<Rightarrow> Map.empty | Some c \<Rightarrow> c)) (notionKey q)"
    and p: "getProp (buildGuaranteedPayload U sessionId nowISO rawData tr candidate) (notionKey q)
        = getProp (enforce U b q) (notionKey q)"
    by blast
  from assms select_options have "type_q q = SELECT \<longrightarrow> getAllowed q \<noteq> []" by blast
  then have "entryGuarantee q (getProp b (notionKey q)) (getProp (enforce U b q) (notionKey q))"
    by (rule enforce_guarantee)
  with b p show ?thesis by simp
qed


text \<open>
  C1 (as amended). For every raw-answer map, transcript and candidate, present or not, every
  schema entry of the payload of \<open>buildGuaranteedPayload\<close> meets \<open>entryGuarantee\<close>: a select
  entry is one of the allowed labels, a multi-select entry is a list of allowed labels no
  longer than the maximum, a boolean entry is a boolean, and a free-text entry is the input
  passed through as it is, the empty string when the input is absent or null.
\<close>

theorem schema_closure:
  "\<forall>q\<in>set QUESTIONS.
     entryGuarantee q
       (getProp (rawData ++ (case candidate of None \<Rightarrow> Map.empty | Some c \<Rightarrow> c)) (notionKey q))
       (getProp (buildGuaranteedPayload U sessionId nowISO rawData tr candidate) (notionKey q))"
  using payload_entry by blast

lemma q01_listed: "q01 \<in> set QUESTIONS"
  by (simp add: QUESTIONS_def)

lemma q20_listed: "q20 \<in> set QUESTIONS"
  by (simp add: QUESTIONS_def)

theorem schema_closure_witness:
  "isAllowedLabel q01 (getProp (buildGuaranteedPayload ucd demoSessionId demoNow Map.empty [] None) (notionKey q01))"
proof -
  have "type_q q01 = SELECT" by (simp add: q01_def)
  with schema_closure [of Map.empty None ucd demoSessionId demoNow "[]"] q01_listed
  show ?thesis by (auto simp: entryGuarantee_def kindConstraint_def)
qed

text \<open>
  The claim as it is stated asks a string of every free-text entry. A candidate that
  proposes the number 42 for the e-mail gets the number 42 into the payload.
\<close>

theorem schema_closure_counterexample:
  "getProp (buildGuaranteedPayload ucd demoSessionId demoNow Map.empty [] (Some numericEmailCandidate))
     (notionKey q20) = JNum (str ''42'')
   \<and> \<not> kindConstraint q20 (JNum (str ''42''))"
proof -
  have t: "type_q q20 = STRING" by (simp add: q20_def)
  have k: "notionKey q20 = kEmail" by (simp add: q20_def kEmail_def)
  have "getProp (Map.empty ++ numericEmailCandidate) (notionKey q20) = JNum (str ''42'')"
    by (simp add: k numericEmailCandidate_def getProp_def)
  with payload_entry [OF q20_listed, of Map.empty "Some numericEmailCandidate" ucd demoSessionId demoNow "[]"] t
  show ?thesis by (simp add: entryGuarantee_def kindConstraint_def isNullish_def)
qed

text \<open>
  C5. Stage B is deterministic. Besides its three arguments the function reads the session
  identity and the clock; no schema entry depends on them: two runs on the same raw answers,
  transcript and candidate give the same entry under every schema key, whatever the session
  identity and the time of each run.
\<close>

theorem stage_b_deterministic:
  "\<forall>q\<in>set QUESTIONS.
     buildGuaranteedPayload U sessionId nowISO rawData tr candidate (notionKey q)
     = buildGuaranteedPayload U sessionId' nowISO' rawData tr candidate (notionKey q)"
  by (simp add: payload_schema_key)

theorem stage_b_deterministic_witness:
  "buildGuaranteedPayload ucd demoSessionId demoNow chefDeProjet [] None (notionKey q01)
   = buildGuaranteedPayload ucd JNull laterNow chefDeProjet [] None (notionKey q01)"
  using stage_b_deterministic [of ucd demoSessionId demoNow chefDeProjet "[]" None JNull laterNow]
    q01_listed by blast

section \<open>Stage A fails: the payload comes from the raw answers alone\<close>






section \<open>The scenario of q04\<close>

lemma optByNorm_zip: "optByNorm U opts = map_of (rev (zip (map (norm_select U) opts) opts))"
proof -
  have "map (\<lambda>o1. (norm_select U o1, o1)) opts = zip (map (norm_select U) opts) opts"
    by (induction opts) simp_all
  then show ?thesis by (simp add: optByNorm_def)
qed

lemma optionScores_map:
  "optionScores U opts v = map (\<lambda>n. overlap (tokenSet v) (tokenSet n)) (map (norm_select U) opts)"
  by (simp add: optionScores_def)

lemma answerText_JStr: "answerText (JStr s) = trim s"
  by (simp add: answerText_def nullish_def isNullish_def)

lemma q04_options: "getAllowed q04 = [
  str ''Nous sommes tr'' @ [232] @ str ''s averses au risque et lents '' @ [224] @ str '' adopter les nouvelles technologies.'',
  smallScaleOption,
  str ''Nous avons un processus formel pour piloter et adopter les nouvelles technologies.'',
  str ''Notre R&D est tr'' @ [232] @ str ''s active en technologies de pointe. Objectif: obtenir un avantage concurrentiel'']"
  by (simp add: q04_def getAllowed_def smallScaleOption_def)

lemma scenario_vRaw: "trim (toStringJS (nullish (JStr scenarioInput) (JStr []))) = scenarioInput"
  by (simp add: scenarioInput_def js_eval)

lemma scenario_norm: "norm_select ucd scenarioInput = scenarioNorm"
  by (simp add: scenarioInput_def scenarioNorm_def norm_select_def js_eval)

lemma q04_norms: "map (norm_select ucd) (getAllowed q04) =
  [str ''nous sommes tres averses au risque et lents a adopter les nouvelles technologies'',
   str ''nous experimentons les nouvelles technologies a petite echelle et de maniere informelle'',
   str ''nous avons un processus formel pour piloter et adopter les nouvelles technologies'',
   str ''notre r d est tres active en technologies de pointe objectif obtenir un avantage concurrentiel'']"
  by (simp add: q04_options smallScaleOption_def norm_select_def js_eval)

lemma scenario_scores: "scoreByIndex (notionKey q04) scenarioNorm = [0, 0, 0, 0]"
  by (simp add: q04_def scenarioNorm_def scoreByIndex_def add_def kw_defs js_eval)

lemma scenario_optByNorm: "optByNorm ucd (getAllowed q04) scenarioNorm = None"
  unfolding optByNorm_zip q04_norms
  by (simp add: q04_options scenarioNorm_def str_def)

lemma scenario_maturityChoice: "maturityChoice q04 (getAllowed q04) scenarioNorm = None"
  by (simp add: maturityChoice_def scenario_scores Let_def)

lemma q04_no_autre: "\<not> hasAutre q04"
  by (simp add: hasAutre_def q04_def)

lemma scenario_not_label: "scenarioInput \<notin> set (getAllowed q04)"
  by (simp add: q04_options smallScaleOption_def scenarioInput_def str_def)

lemma scenario_not_digits: "\<not> list_all isDigit scenarioInput"
  by (simp add: scenarioInput_def str_def char_eval)

lemma scenario_optionScores:
  "optionScores ucd (getAllowed q04) scenarioNorm = [1 / 19, 3 / 16, 1 / 18, 1 / 21]"
  unfolding optionScores_map q04_norms
  by (simp add: scenarioNorm_def tokenSet_def overlap_def str_def Let_def)

lemma scenario_nearest: "nearestOption ucd (getAllowed q04) scenarioNorm = smallScaleOption"
  unfolding nearestOption_def scenario_optionScores
  by (simp add: q04_options firstOption_def)

lemma scenario_ucd: "ensureSelect ucd q04 base (JStr scenarioInput) = (smallScaleOption, base)"
proof -
  have ne: "scenarioInput \<noteq> []" by (simp add: scenarioInput_def str_def)
  show ?thesis
    unfolding ensureSelect_def Let_def scenario_vRaw scenario_norm
    using ne scenario_optByNorm scenario_maturityChoice q04_no_autre scenario_not_label
      scenario_not_digits scenario_nearest
    by (simp add: NORMALIZATION_FALLBACKS_BY_NOTION_KEY_def)
qed

subsection \<open>From the Unicode data to every conforming platform\<close>

lemma conforms_ucd: "conforms ucd"
  by (simp add: conforms_def)

lemma covered_lower1: "covered c \<Longrightarrow> covered (lower1 c)"
  by (auto simp: covered_def lower1_def)

lemma norm_select_conforms:
  assumes "conforms U" and "list_all covered s"
  shows "norm_select U s = norm_select ucd s"
proof -
  from assms have low: "toLowerCase U s = toLowerCase ucd s" by (simp add: conforms_def)
  have "list_all covered (toLowerCase ucd s)"
    using assms(2) by (simp add: ucd_def list_all_iff covered_lower1)
  with assms(1) have "normalizeNFD U (toLowerCase ucd s) = normalizeNFD ucd (toLowerCase ucd s)"
    by (simp add: conforms_def)
  with low show ?thesis by (simp add: norm_select_def)
qed

lemma ensureSelect_conforms:
  assumes U: "conforms U"
    and v: "list_all covered (trim (toStringJS (nullish value (JStr []))))"
    and os: "\<forall>o1\<in>set (getAllowed q). list_all covered o1"
  shows "ensureSelect U q base value = ensureSelect ucd q base value"
proof -
  have n: "norm_select U (trim (toStringJS (nullish value (JStr []))))
      = norm_select ucd (trim (toStringJS (nullish value (JStr []))))"
    using U v by (rule norm_select_conforms)
  have m: "map (norm_select U) (getAllowed q) = map (norm_select ucd) (getAllowed q)"
    using U os by (simp add: norm_select_conforms)
  have o: "optByNorm U (getAllowed q) = optByNorm ucd (getAllowed q)"
    by (simp add: optByNorm_zip m)
  have s: "\<And>x. optionScores U (getAllowed q) x = optionScores ucd (getAllowed q) x"
    by (simp add: optionScores_map m)
  have r: "\<And>x. nearestOption U (getAllowed q) x = nearestOption ucd (getAllowed q) x"
    by (simp add: nearestOption_def s)
  show ?thesis
    unfolding ensureSelect_def Let_def n o r ..
qed

lemma scenario_covered: "list_all covered scenarioInput"
  by (simp add: scenarioInput_def str_def covered_def)

lemma q04_covered: "\<forall>o1\<in>set (getAllowed q04). list_all covered o1"
  by (simp add: q04_options smallScaleOption_def str_def covered_def)

text \<open>
  C9. For the maturity question q04 (four options, no escape) the raw value
  "on teste un peu a petite echelle" (with its accents) resolves through \<open>ensureSelect\<close> to
  the small-scale-experimentation option, on every platform whose two Unicode built-ins
  conform to the Unicode data on Latin text; \<open>base\<close> is left as it was.
\<close>

theorem scenario_small_scale:
  "conforms U \<Longrightarrow> ensureSelect U q04 base (JStr scenarioInput) = (smallScaleOption, base)"
proof -
  assume U: "conforms U"
  have "list_all covered (trim (toStringJS (nullish (JStr scenarioInput) (JStr []))))"
    unfolding scenario_vRaw by (rule scenario_covered)
  with U have "ensureSelect U q04 base (JStr scenarioInput) = ensureSelect ucd q04 base (JStr scenarioInput)"
    using q04_covered by (rule ensureSelect_conforms)
  then show ?thesis by (simp add: scenario_ucd)
qed

theorem scenario_small_scale_witness:
  "ensureSelect ucd q04 Map.empty (JStr scenarioInput) = (smallScaleOption, Map.empty)"
  using scenario_small_scale [OF conforms_ucd] .

section \<open>The maturity questions\<close>






subsection \<open>Digits carry no keyword\<close>

lemma rxMatch_other_letter:
  "x \<noteq> c \<Longrightarrow> rxMatch (Boundary # One (Chr c) # as) prev (x # xs) = []"
  by simp

lemma rxMatch_letter_end: "rxMatch (Boundary # One (Chr c) # as) prev [] = []"
  by simp


lemma lit_Cons: "lit (c # cs) = One (Chr (of_char c)) # lit cs"
  by (simp add: lit_def)

lemma phrase_Cons: "\<exists>as. phrase ((c # cs) # ws) = One (Chr (of_char c)) # as"
  by (cases ws) (simp_all add: lit_def)








subsection \<open>The first options of q01 to q05\<close>


















subsection \<open>The guard\<close>

lemma norm_select_empty: "norm_select ucd [] = []"
  by (simp add: norm_select_def ucd_def trim_def)
















section \<open>Candidate keys\<close>

lemma payload_other_key:
  assumes "k \<notin> notionKey ` set QUESTIONS" and "k \<notin> set metaKeys"
    and "Some k \<notin> autreKey ` set QUESTIONS \<or> truthy (getProp base k)"
  shows "attachMeta sessionId nowISO (foldl (enforce U) base QUESTIONS) k = base k"
  using assms by (simp add: attachMeta_other foldl_enforce_other)

lemma raw_overridden: "k \<in> dom candidate \<Longrightarrow> rawData(k \<mapsto> x) ++ candidate = rawData ++ candidate"
  by (auto simp: map_add_def fun_eq_iff split: option.splits)

text \<open>
  C10 (as amended). A candidate key that is no notion key and none of the metadata keys
  reaches the payload with the candidate's value unchanged, provided it is no escape key of a
  question either, or its value is truthy. And where the candidate has a key, the raw answer
  under that key has no part in the payload: the candidate's value is what is validated.
\<close>

theorem candidate_passthrough:
  "(candidate k = Some v \<and> k \<notin> notionKey ` set QUESTIONS \<and> k \<notin> set metaKeys
      \<and> (Some k \<notin> autreKey ` set QUESTIONS \<or> truthy v)
     \<longrightarrow> buildGuaranteedPayload U sessionId nowISO rawData tr (Some candidate) k = Some v)
   \<and> (k \<in> dom candidate
     \<longrightarrow> buildGuaranteedPayload U sessionId nowISO (rawData(k \<mapsto> x)) tr (Some candidate)
         = buildGuaranteedPayload U sessionId nowISO rawData tr (Some candidate))"
proof (intro conjI impI)
  assume a: "candidate k = Some v \<and> k \<notin> notionKey ` set QUESTIONS \<and> k \<notin> set metaKeys
      \<and> (Some k \<notin> autreKey ` set QUESTIONS \<or> truthy v)"
  then have base: "(rawData ++ candidate) k = Some v" by simp
  then have "getProp (rawData ++ candidate) k = v" by (simp add: getProp_def)
  with a have "Some k \<notin> autreKey ` set QUESTIONS \<or> truthy (getProp (rawData ++ candidate) k)"
    by simp
  with a have "attachMeta sessionId nowISO (foldl (enforce U) (rawData ++ candidate) QUESTIONS) k
      = (rawData ++ candidate) k"
    by (intro payload_other_key) simp_all
  with base show "buildGuaranteedPayload U sessionId nowISO rawData tr (Some candidate) k = Some v"
    by (simp add: buildGuaranteedPayload_def)
next
  assume "k \<in> dom candidate"
  then show "buildGuaranteedPayload U sessionId nowISO (rawData(k \<mapsto> x)) tr (Some candidate)
      = buildGuaranteedPayload U sessionId nowISO rawData tr (Some candidate)"
    by (simp add: buildGuaranteedPayload_def raw_overridden)
qed

lemma noteKey_free:
  "noteKey \<notin> notionKey ` set QUESTIONS" "noteKey \<notin> set metaKeys" "Some noteKey \<notin> autreKey ` set QUESTIONS"
proof -
  have "noteKey \<notin> set (map notionKey QUESTIONS)"
    unfolding notionKeys by (simp add: noteKey_def str_def)
  then show "noteKey \<notin> notionKey ` set QUESTIONS" by simp
  show "noteKey \<notin> set metaKeys" by (simp add: noteKey_def metaKeys_defs str_def)
  have "Some noteKey \<notin> set (map autreKey QUESTIONS)"
    unfolding autreKeys by (simp add: noteKey_def str_def)
  then show "Some noteKey \<notin> autreKey ` set QUESTIONS" by simp
qed

theorem candidate_passthrough_witness:
  "buildGuaranteedPayload ucd demoSessionId demoNow chefDeProjet [] (Some noteCandidate) noteKey
     = Some (JStr (str ''RAS''))"
proof -
  have "noteCandidate noteKey = Some (JStr (str ''RAS''))" by (simp add: noteCandidate_def)
  with candidate_passthrough [of noteCandidate noteKey "JStr (str ''RAS'')" ucd demoSessionId demoNow
      chefDeProjet "[]"] noteKey_free
  show ?thesis by blast
qed

text \<open>When nothing matches and the question has an escape, step 5 answers with it.\<close>

lemma select_falls_to_autre:
  assumes "hasAutre q" and "answerText value \<noteq> []" and "answerText value \<notin> set (getAllowed q)"
    and "\<not> list_all isDigit (answerText value)"
    and "optByNorm U (getAllowed q) (norm_select U (answerText value)) = None"
    and "maturityChoice q (getAllowed q) (norm_select U (answerText value)) = None"
  shows "ensureSelect U q base value = (autreLabel q, storeAutre q base (answerText value))"
  using assms by (simp add: ensureSelect_def Let_def answerText_def [symmetric])

lemma q06_shape: "type_q q06 = SELECT" "autreKey q06 = Some positionAutreKey" "hasAutre q06"
  "positionAutreKey \<noteq> notionKey q06" "positionAutreKey \<noteq> []" "\<not> rxFull rxQ01toQ05 (id_q q06)"
  "\<not> rxTest rxMaturite (notionKey q06)"
  by (simp_all add: q06_def positionAutreKey_def hasAutre_def getAllowed_def rxQ01toQ05_def
        rxMaturite_def js_eval)

lemma chef_text: "answerText (JStr (str ''chef de projet'')) = str ''chef de projet''"
  by (simp add: answerText_JStr js_eval)

lemma chef_norm: "norm_select ucd (str ''chef de projet'') = str ''chef de projet''"
  by (simp add: norm_select_def js_eval)

lemma q06_norms: "map (norm_select ucd) (getAllowed q06) =
  [str ''dirigeant cadre dirigeant visionnaire decisionnaire'',
   str ''responsable operationnel cadre dirigeant operationnel'',
   str ''collaborateur expert technique'',
   str ''autre'']"
  by (simp add: q06_def getAllowed_def norm_select_def js_eval)

lemma chef_select:
  "ensureSelect ucd q06 base (JStr (str ''chef de projet''))
     = (autreLabel q06, storeAutre q06 base (str ''chef de projet''))"
proof -
  have 1: "str ''chef de projet'' \<noteq> []" by (simp add: str_def)
  have 2: "str ''chef de projet'' \<notin> set (getAllowed q06)"
    by (simp add: q06_def getAllowed_def str_def)
  have 3: "\<not> list_all isDigit (str ''chef de projet'')" by (simp add: str_def char_eval)
  have 4: "optByNorm ucd (getAllowed q06) (str ''chef de projet'') = None"
    unfolding optByNorm_zip q06_norms by (simp add: q06_def getAllowed_def str_def)
  have 5: "maturityChoice q06 (getAllowed q06) (str ''chef de projet'') = None"
    using q06_shape(6,7) by (simp add: maturityChoice_def isQ01toQ05_def)
  from q06_shape(3) 1 2 3 4 5 show ?thesis
    using select_falls_to_autre [of q06 "JStr (str ''chef de projet'')" ucd base]
    by (simp add: chef_text chef_norm)
qed

lemma chef_round:
  assumes "b (notionKey q06) = Some (JStr (str ''chef de projet''))" and "b positionAutreKey = Some (JStr [])"
  shows "enforce ucd b q06 positionAutreKey = Some (JStr (str ''chef de projet''))"
  using assms q06_shape(1,2,4,5)
  by (simp add: enforce_def Let_def getProp_def chef_select storeAutre_def truthy_def)

lemma questions_split:
  "QUESTIONS = take 5 QUESTIONS @ q06 # drop 6 QUESTIONS"
  by (simp add: QUESTIONS_def)

lemma position_keys_before:
  "notionKey q06 \<notin> notionKey ` set (take 5 QUESTIONS)" "Some (notionKey q06) \<notin> autreKey ` set (take 5 QUESTIONS)"
  "positionAutreKey \<notin> notionKey ` set (take 5 QUESTIONS)" "Some positionAutreKey \<notin> autreKey ` set (take 5 QUESTIONS)"
proof -
  have n: "notionKey ` set (take 5 QUESTIONS) = set (take 5 (map notionKey QUESTIONS))"
    and a: "autreKey ` set (take 5 QUESTIONS) = set (take 5 (map autreKey QUESTIONS))"
    by (simp_all add: take_map)
  show "notionKey q06 \<notin> notionKey ` set (take 5 QUESTIONS)"
    unfolding n notionKeys by (simp add: q06_def str_def)
  show "Some (notionKey q06) \<notin> autreKey ` set (take 5 QUESTIONS)"
    unfolding a autreKeys by simp
  show "positionAutreKey \<notin> notionKey ` set (take 5 QUESTIONS)"
    unfolding n notionKeys by (simp add: positionAutreKey_def str_def)
  show "Some positionAutreKey \<notin> autreKey ` set (take 5 QUESTIONS)"
    unfolding a autreKeys by simp
qed

lemma position_keys_after:
  "positionAutreKey \<notin> notionKey ` set (drop 6 QUESTIONS)" "Some positionAutreKey \<notin> autreKey ` set (drop 6 QUESTIONS)"
proof -
  have n: "notionKey ` set (drop 6 QUESTIONS) = set (drop 6 (map notionKey QUESTIONS))"
    and a: "autreKey ` set (drop 6 QUESTIONS) = set (drop 6 (map autreKey QUESTIONS))"
    by (simp_all add: drop_map)
  show "positionAutreKey \<notin> notionKey ` set (drop 6 QUESTIONS)"
    unfolding n notionKeys by (simp add: positionAutreKey_def str_def)
  show "Some positionAutreKey \<notin> autreKey ` set (drop 6 QUESTIONS)"
    unfolding a autreKeys by (simp add: positionAutreKey_def str_def)
qed

lemma positionAutreKey_free:
  "positionAutreKey \<notin> notionKey ` set QUESTIONS" "positionAutreKey \<notin> set metaKeys"
proof -
  have "positionAutreKey \<notin> set (map notionKey QUESTIONS)"
    unfolding notionKeys by (simp add: positionAutreKey_def str_def)
  then show "positionAutreKey \<notin> notionKey ` set QUESTIONS" by simp
  show "positionAutreKey \<notin> set metaKeys" by (simp add: positionAutreKey_def metaKeys_defs str_def)
qed

text \<open>
  The claim as it is stated covers the escape keys too. A candidate that proposes the empty
  string under the escape key of q06, while the raw answer of q06 is a free text, finds the
  free text under that key in the payload.
\<close>

theorem candidate_passthrough_counterexample:
  "emptyAutreCandidate positionAutreKey = Some (JStr [])
   \<and> positionAutreKey \<notin> notionKey ` set QUESTIONS
   \<and> positionAutreKey \<notin> set metaKeys
   \<and> buildGuaranteedPayload ucd demoSessionId demoNow chefDeProjet [] (Some emptyAutreCandidate)
       positionAutreKey = Some (JStr (str ''chef de projet''))"
proof -
  define base where "base = chefDeProjet ++ emptyAutreCandidate"
  define b5 where "b5 = foldl (enforce ucd) base (take 5 QUESTIONS)"
  have base1: "base (notionKey q06) = Some (JStr (str ''chef de projet''))"
    using q06_shape(4) by (simp add: base_def chefDeProjet_def emptyAutreCandidate_def map_add_def)
  have base2: "base positionAutreKey = Some (JStr [])"
    by (simp add: base_def emptyAutreCandidate_def)
  have "b5 (notionKey q06) = base (notionKey q06)"
    unfolding b5_def using position_keys_before(1,2) by (intro foldl_enforce_other) simp_all
  with base1 have b51: "b5 (notionKey q06) = Some (JStr (str ''chef de projet''))" by simp
  have "b5 positionAutreKey = base positionAutreKey"
    unfolding b5_def using position_keys_before(3,4) by (intro foldl_enforce_other) simp_all
  with base2 have b52: "b5 positionAutreKey = Some (JStr [])" by simp
  have b6: "enforce ucd b5 q06 positionAutreKey = Some (JStr (str ''chef de projet''))"
    using b51 b52 by (rule chef_round)
  have "foldl (enforce ucd) base QUESTIONS
      = foldl (enforce ucd) (enforce ucd b5 q06) (drop 6 QUESTIONS)"
    by (subst questions_split) (simp add: b5_def)
  moreover have "foldl (enforce ucd) (enforce ucd b5 q06) (drop 6 QUESTIONS) positionAutreKey
      = enforce ucd b5 q06 positionAutreKey"
    using position_keys_after by (intro foldl_enforce_other) simp_all
  ultimately have "foldl (enforce ucd) base QUESTIONS positionAutreKey = Some (JStr (str ''chef de projet''))"
    using b6 by simp
  then have "buildGuaranteedPayload ucd demoSessionId demoNow chefDeProjet [] (Some emptyAutreCandidate)
      positionAutreKey = Some (JStr (str ''chef de projet''))"
    using positionAutreKey_free(2) by (simp add: buildGuaranteedPayload_def base_def attachMeta_other)
  with base2 positionAutreKey_free show ?thesis by (simp add: emptyAutreCandidate_def)
qed

section \<open>\<open>record_answer\<close>\<close>

lemma findIndex_bound: "findIndex p xs = Some i \<Longrightarrow> i < length xs"
  by (induction xs arbitrary: i) (auto split: if_splits option.splits)

lemma questionIndex_bound: "questionIndex qi = Some i \<Longrightarrow> i < length QUESTIONS"
  unfolding questionIndex_def by (rule findIndex_bound)

lemma find_map_update:
  assumes "\<And>s. id_s (f s) = id_s s"
  shows "find (\<lambda>s. id_s s = cid) (map (\<lambda>s. if id_s s = cid then f s else s) xs)
         = map_option f (find (\<lambda>s. id_s s = cid) xs)"
  using assms by (induction xs) auto

subsection \<open>What \<open>newData\<close> holds\<close>

lemma newData_entry:
  assumes "autreKey q \<noteq> Some (notionKey q)"
  shows "newData U q args old (notionKey q) =
     Some (case type_q q of
             MULTI_SELECT \<Rightarrow> if truthy (multiValues args) then multiValues args else JArr []
           | BOOL \<Rightarrow> JBool (trim (toLowerCase U (toStringJS (value_a args))) \<in> set yesWords)
           | _ \<Rightarrow> value_a args)"
  using assms
  by (auto simp: newData_def Let_def orElse_def yesWords_def split: QuestionType.splits option.splits)

lemma newData_autre:
  assumes "autreKey q = Some k" and "k \<noteq> []" and "truthy (autreValue args)"
  shows "newData U q args old k = Some (autreValue args)"
  using assms by (simp add: newData_def Let_def)

lemma newData_other:
  assumes "k \<noteq> notionKey q" and "autreKey q \<noteq> Some k \<or> \<not> truthy (autreValue args)"
  shows "newData U q args old k = old k"
  using assms
  by (auto simp: newData_def Let_def split: QuestionType.splits option.splits)

subsection \<open>The two outcomes of the handler\<close>

lemma handleRecordAnswer_refused:
  assumes "\<not> sessionFound app \<or> questionIndex (questionId args) = None"
  shows "fst (handleRecordAnswer U args app) \<in> set errorResults"
    and "snd (handleRecordAnswer U args app) = app"
  using assms
  by (auto simp: handleRecordAnswer_def sessionFound_def errorResults_def Let_def split: option.splits)

text \<open>An accepted call: what it returns and what it leaves.\<close>

lemma handleRecordAnswer_accepted:
  assumes found: "sessionFound app" and qi: "questionIndex (questionId args) = Some i"
  shows "\<exists>cid cur. currentSessionIdRef app = Some cid \<and> cid \<noteq> [] \<and> currentSession app = Some cur
    \<and> snd (handleRecordAnswer U args app) =
        app\<lparr> sessions :=
               map (\<lambda>s. if id_s s = cid
                         then s\<lparr> auditData := newData U (QUESTIONS ! i) args (auditData cur),
                                 currentStep := i + 1, consecutiveErrors := 0 \<rparr>
                         else s)
                 (sessions app),
             isPendingFinalSpeechRef := (length QUESTIONS \<le> i + 1 \<or> isPendingFinalSpeechRef app),
             submitted :=
               (if length QUESTIONS \<le> i + 1
                then submitted app @ [newData U (QUESTIONS ! i) args (auditData cur)]
                else submitted app) \<rparr>
    \<and> fst (handleRecordAnswer U args app) =
        (if length QUESTIONS \<le> i + 1 then str ''[EVENT: AUDIT_COMPLETED]''
         else str ''[EVENT: RECORD_SUCCESS]'')"
proof -
  from found obtain cid cur where cid: "currentSessionIdRef app = Some cid" "cid \<noteq> []"
    and cur: "currentSession app = Some cur"
    by (auto simp: sessionFound_def split: option.splits)
  from cid cur qi show ?thesis
    by (simp add: handleRecordAnswer_def Let_def)
qed

lemma results_apart:
  "str ''[EVENT: RECORD_SUCCESS]'' \<notin> set errorResults" "str ''[EVENT: AUDIT_COMPLETED]'' \<notin> set errorResults"
  by (simp_all add: errorResults_def str_def)

subsection \<open>The pointer and the finished flag after a step\<close>

lemma stored_map:
  assumes "currentSessionIdRef app = Some cid" and "\<And>s. id_s (f s) = id_s s"
  shows "storedSession (app\<lparr> sessions := map (\<lambda>s. if id_s s = cid then f s else s) (sessions app) \<rparr>)
         = map_option f (storedSession app)"
  using assms by (simp add: storedSession_def find_map_update)

lemma accepted_stored:
  assumes "sessionFound app" and "questionIndex (questionId args) = Some i"
  shows "\<exists>d. storedSession (snd (handleRecordAnswer U args app))
           = map_option (\<lambda>s. s\<lparr> auditData := d, currentStep := i + 1, consecutiveErrors := 0 \<rparr>)
               (storedSession app)"
proof -
  from handleRecordAnswer_accepted [OF assms, of U] obtain cid cur where
    cid: "currentSessionIdRef app = Some cid"
    and cur: "currentSession app = Some cur"
    and after: "snd (handleRecordAnswer U args app) =
        app\<lparr> sessions :=
               map (\<lambda>s. if id_s s = cid
                         then s\<lparr> auditData := newData U (QUESTIONS ! i) args (auditData cur),
                                 currentStep := i + 1, consecutiveErrors := 0 \<rparr>
                         else s)
                 (sessions app),
             isPendingFinalSpeechRef := (length QUESTIONS \<le> i + 1 \<or> isPendingFinalSpeechRef app),
             submitted :=
               (if length QUESTIONS \<le> i + 1
                then submitted app @ [newData U (QUESTIONS ! i) args (auditData cur)]
                else submitted app) \<rparr>"
    by (elim exE conjE) (rule that)
  define f where "f = (\<lambda>s::Session. s\<lparr> auditData := newData U (QUESTIONS ! i) args (auditData cur),
      currentStep := i + 1, consecutiveErrors := 0 \<rparr>)"
  have "storedSession (snd (handleRecordAnswer U args app))
      = storedSession (app\<lparr> sessions := map (\<lambda>s. if id_s s = cid then f s else s) (sessions app) \<rparr>)"
    unfolding after f_def using cid by (simp add: storedSession_def)
  also have "\<dots> = map_option f (storedSession app)"
    using cid by (rule stored_map) (simp add: f_def)
  finally show ?thesis unfolding f_def by blast
qed

lemma accepted_pointer:
  assumes "sessionFound app" and "questionIndex (questionId args) = Some i"
    and "storedSession app \<noteq> None"
  shows "pointer (snd (handleRecordAnswer U args app)) = i + 1"
    and "finished (snd (handleRecordAnswer U args app)) = finished app"
    and "storedSession (snd (handleRecordAnswer U args app)) \<noteq> None"
  using accepted_stored [OF assms(1,2), of U] assms(3)
  by (auto simp: pointer_def finished_def)

lemma accepted_rawAnswer:
  assumes "sessionFound app" and "questionIndex (questionId args) = Some i"
    and "storedSession app \<noteq> None"
  shows "\<exists>cur. currentSession app = Some cur
    \<and> rawAnswer (snd (handleRecordAnswer U args app)) = newData U (QUESTIONS ! i) args (auditData cur)"
proof -
  from handleRecordAnswer_accepted [OF assms(1,2), of U] obtain cid cur where
    cid: "currentSessionIdRef app = Some cid"
    and cur: "currentSession app = Some cur"
    and after: "snd (handleRecordAnswer U args app) =
        app\<lparr> sessions :=
               map (\<lambda>s. if id_s s = cid
                         then s\<lparr> auditData := newData U (QUESTIONS ! i) args (auditData cur),
                                 currentStep := i + 1, consecutiveErrors := 0 \<rparr>
                         else s)
                 (sessions app),
             isPendingFinalSpeechRef := (length QUESTIONS \<le> i + 1 \<or> isPendingFinalSpeechRef app),
             submitted :=
               (if length QUESTIONS \<le> i + 1
                then submitted app @ [newData U (QUESTIONS ! i) args (auditData cur)]
                else submitted app) \<rparr>"
    by (elim exE conjE) (rule that)
  define f where "f = (\<lambda>s::Session. s\<lparr> auditData := newData U (QUESTIONS ! i) args (auditData cur),
      currentStep := i + 1, consecutiveErrors := 0 \<rparr>)"
  have "storedSession (snd (handleRecordAnswer U args app))
      = storedSession (app\<lparr> sessions := map (\<lambda>s. if id_s s = cid then f s else s) (sessions app) \<rparr>)"
    unfolding after f_def using cid by (simp add: storedSession_def)
  also have "\<dots> = map_option f (storedSession app)"
    using cid by (rule stored_map) (simp add: f_def)
  finally have "rawAnswer (snd (handleRecordAnswer U args app))
      = newData U (QUESTIONS ! i) args (auditData cur)"
    using assms(3) by (auto simp: rawAnswer_def f_def)
  with cur show ?thesis by blast
qed

lemma record_finished: "finished (snd (handleRecordAnswer U args app)) = finished app"
proof (cases "sessionFound app \<and> questionIndex (questionId args) \<noteq> None")
  case True
  then obtain i where "sessionFound app" "questionIndex (questionId args) = Some i" by auto
  from accepted_stored [OF this, of U] show ?thesis
    by (auto simp: finished_def split: option.splits)
next
  case False
  then have "snd (handleRecordAnswer U args app) = app"
    by (intro handleRecordAnswer_refused) auto
  then show ?thesis by simp
qed

text \<open>
  C7 (as amended). \<open>record_answer\<close> fails exactly when the question id is not one of the
  catalogue or the handler finds no current session (no current id, or no session of that id
  in the list it reads): it then returns one of the three short error strings and leaves the
  state as it was. Whether the session is finished is not looked at. In every other case it
  returns an event string and gives the sessions of the current id a copy of the raw answers
  it read, in which the entry of the question named is the list \<open>multiValues\<close> (the empty
  list when there is none) for a multi-select question, whether the lower-cased, trimmed
  \<open>value\<close> is one of \<open>true\<close>, \<open>oui\<close>, \<open>ok\<close>, \<open>accord\<close>, \<open>yes\<close> for a boolean question, and
  \<open>value\<close> as it is otherwise; a truthy \<open>autreValue\<close> goes under the escape key of the
  question; every other entry stays. The pointer is set to the position after the question
  named and the finished flag is left alone. On a rendered state an active session is
  always found.
\<close>

theorem record_answer_failure:
  "(\<not> sessionFound app \<or> questionIndex (questionId args) = None
      \<longrightarrow> fst (handleRecordAnswer U args app) \<in> set errorResults
          \<and> snd (handleRecordAnswer U args app) = app)
   \<and> (sessionFound app \<and> questionIndex (questionId args) = Some i
      \<longrightarrow> fst (handleRecordAnswer U args app) \<notin> set errorResults
          \<and> (\<exists>cid cur d.
                currentSessionIdRef app = Some cid \<and> currentSession app = Some cur
                \<and> sessions (snd (handleRecordAnswer U args app))
                    = map (\<lambda>s. if id_s s = cid
                                then s\<lparr> auditData := d, currentStep := i + 1, consecutiveErrors := 0 \<rparr>
                                else s)
                        (sessions app)
                \<and> d (notionKey (QUESTIONS ! i))
                    = Some (case type_q (QUESTIONS ! i) of
                              MULTI_SELECT \<Rightarrow>
                                if truthy (multiValues args) then multiValues args else JArr []
                            | BOOL \<Rightarrow>
                                JBool (trim (toLowerCase U (toStringJS (value_a args))) \<in> set yesWords)
                            | _ \<Rightarrow> value_a args)
                \<and> (\<forall>k. autreKey (QUESTIONS ! i) = Some k \<and> k \<noteq> [] \<and> truthy (autreValue args)
                        \<longrightarrow> d k = Some (autreValue args))
                \<and> (\<forall>k. k \<noteq> notionKey (QUESTIONS ! i)
                         \<and> (autreKey (QUESTIONS ! i) \<noteq> Some k \<or> \<not> truthy (autreValue args))
                        \<longrightarrow> d k = auditData cur k)
                \<and> (storedSession app \<noteq> None
                        \<longrightarrow> rawAnswer (snd (handleRecordAnswer U args app)) = d))
          \<and> sessionsRef (snd (handleRecordAnswer U args app)) = sessionsRef app
          \<and> finished (snd (handleRecordAnswer U args app)) = finished app
          \<and> (storedSession app \<noteq> None \<longrightarrow> pointer (snd (handleRecordAnswer U args app)) = i + 1))
   \<and> (active app \<and> sessionsRef app = sessions app \<longrightarrow> sessionFound app)"
proof (intro conjI impI)
  assume r: "\<not> sessionFound app \<or> questionIndex (questionId args) = None"
  then show "fst (handleRecordAnswer U args app) \<in> set errorResults"
    by (rule handleRecordAnswer_refused)
  from r show "snd (handleRecordAnswer U args app) = app"
    by (rule handleRecordAnswer_refused)
next
  assume a: "sessionFound app \<and> questionIndex (questionId args) = Some i"
  then have found: "sessionFound app" and qi: "questionIndex (questionId args) = Some i"
    by simp_all
  from qi have "i < length QUESTIONS" by (rule questionIndex_bound)
  then have "QUESTIONS ! i \<in> set QUESTIONS" by simp
  with autreKeys_apart have apart: "autreKey (QUESTIONS ! i) \<noteq> Some (notionKey (QUESTIONS ! i))"
    by blast
  from handleRecordAnswer_accepted [OF found qi, of U] obtain cid cur where
    cid: "currentSessionIdRef app = Some cid"
    and cur: "currentSession app = Some cur"
    and after: "snd (handleRecordAnswer U args app) =
        app\<lparr> sessions :=
               map (\<lambda>s. if id_s s = cid
                         then s\<lparr> auditData := newData U (QUESTIONS ! i) args (auditData cur),
                                 currentStep := i + 1, consecutiveErrors := 0 \<rparr>
                         else s)
                 (sessions app),
             isPendingFinalSpeechRef := (length QUESTIONS \<le> i + 1 \<or> isPendingFinalSpeechRef app),
             submitted :=
               (if length QUESTIONS \<le> i + 1
                then submitted app @ [newData U (QUESTIONS ! i) args (auditData cur)]
                else submitted app) \<rparr>"
    and res: "fst (handleRecordAnswer U args app) =
        (if length QUESTIONS \<le> i + 1 then str ''[EVENT: AUDIT_COMPLETED]''
         else str ''[EVENT: RECORD_SUCCESS]'')"
    by (elim exE conjE) (rule that)
  from res results_apart show "fst (handleRecordAnswer U args app) \<notin> set errorResults"
    by simp
  define d where "d = newData U (QUESTIONS ! i) args (auditData cur)"
  have 1: "sessions (snd (handleRecordAnswer U args app))
      = map (\<lambda>s. if id_s s = cid
                  then s\<lparr> auditData := d, currentStep := i + 1, consecutiveErrors := 0 \<rparr>
                  else s)
          (sessions app)"
    unfolding after d_def by simp
  have 2: "d (notionKey (QUESTIONS ! i))
      = Some (case type_q (QUESTIONS ! i) of
                MULTI_SELECT \<Rightarrow> if truthy (multiValues args) then multiValues args else JArr []
              | BOOL \<Rightarrow> JBool (trim (toLowerCase U (toStringJS (value_a args))) \<in> set yesWords)
              | _ \<Rightarrow> value_a args)"
    unfolding d_def using apart by (rule newData_entry)
  have 3: "\<forall>k. autreKey (QUESTIONS ! i) = Some k \<and> k \<noteq> [] \<and> truthy (autreValue args)
      \<longrightarrow> d k = Some (autreValue args)"
    unfolding d_def by (simp add: newData_autre)
  have 4: "\<forall>k. k \<noteq> notionKey (QUESTIONS ! i)
       \<and> (autreKey (QUESTIONS ! i) \<noteq> Some k \<or> \<not> truthy (autreValue args))
      \<longrightarrow> d k = auditData cur k"
    unfolding d_def by (simp add: newData_other)
  have 5: "storedSession app \<noteq> None \<longrightarrow> rawAnswer (snd (handleRecordAnswer U args app)) = d"
    unfolding d_def using accepted_rawAnswer [OF found qi, of U] cur by auto
  from cid cur 1 2 3 4 5 show "\<exists>cid cur d.
      currentSessionIdRef app = Some cid \<and> currentSession app = Some cur
      \<and> sessions (snd (handleRecordAnswer U args app))
          = map (\<lambda>s. if id_s s = cid
                      then s\<lparr> auditData := d, currentStep := i + 1, consecutiveErrors := 0 \<rparr>
                      else s)
              (sessions app)
      \<and> d (notionKey (QUESTIONS ! i))
          = Some (case type_q (QUESTIONS ! i) of
                    MULTI_SELECT \<Rightarrow>
                      if truthy (multiValues args) then multiValues args else JArr []
                  | BOOL \<Rightarrow>
                      JBool (trim (toLowerCase U (toStringJS (value_a args))) \<in> set yesWords)
                  | _ \<Rightarrow> value_a args)
      \<and> (\<forall>k. autreKey (QUESTIONS ! i) = Some k \<and> k \<noteq> [] \<and> truthy (autreValue args)
              \<longrightarrow> d k = Some (autreValue args))
      \<and> (\<forall>k. k \<noteq> notionKey (QUESTIONS ! i)
               \<and> (autreKey (QUESTIONS ! i) \<noteq> Some k \<or> \<not> truthy (autreValue args))
              \<longrightarrow> d k = auditData cur k)
      \<and> (storedSession app \<noteq> None
              \<longrightarrow> rawAnswer (snd (handleRecordAnswer U args app)) = d)"
    by (intro exI conjI)
  show "sessionsRef (snd (handleRecordAnswer U args app)) = sessionsRef app"
    unfolding after by simp
  show "finished (snd (handleRecordAnswer U args app)) = finished app"
    by (rule record_finished)
  assume "storedSession app \<noteq> None"
  with found qi show "pointer (snd (handleRecordAnswer U args app)) = i + 1"
    by (rule accepted_pointer)
next
  assume "active app \<and> sessionsRef app = sessions app"
  then show "sessionFound app"
    by (auto simp: active_def sessionFound_def storedSession_def currentSession_def
        split: option.splits)
qed

subsection \<open>Examples\<close>

lemma findIndex_map: "findIndex p (map f xs) = findIndex (\<lambda>x. p (f x)) xs"
  by (induction xs) simp_all

lemma ids:
  "map id_q QUESTIONS =
     map str [''q01'', ''q02'', ''q03'', ''q04'', ''q05'', ''q06'', ''q07'', ''q08'', ''q09'', ''q10'', ''q11'',
       ''q12'', ''q13'', ''q14'', ''q15'', ''q16'', ''q17'', ''q18'', ''q19'', ''q20'', ''q21'']"
  by (simp add: QUESTIONS_def q01_def q02_def q03_def q04_def q05_def q06_def q07_def
        q08_def q09_def q10_def q11_def q12_def q13_def q14_def q15_def q16_def q17_def q18_def
        q19_def q20_def q21_def)

lemma questionIndex_ids: "questionIndex qi = findIndex (\<lambda>i. JStr i = qi) (map id_q QUESTIONS)"
  by (simp add: questionIndex_def findIndex_map)

lemma questionIndex_examples:
  "questionIndex (questionId (answer ''q02'' v)) = Some 1"
  "questionIndex (questionId (answer ''q06'' v)) = Some 5"
  "questionIndex (questionId (answer ''q07'' v)) = Some 6"
  "questionIndex (questionId (answer ''q21'' v)) = Some 20"
  "questionIndex (questionId (answer ''q99'' v)) = None"
  unfolding questionIndex_ids ids by (simp_all add: answer_def str_def)

lemma length_QUESTIONS: "length QUESTIONS = 21"
  by (simp add: QUESTIONS_def)

lemma nth_QUESTIONS: "QUESTIONS ! 5 = q06" "QUESTIONS ! 6 = q07"
  by (simp_all add: QUESTIONS_def)

lemma select_examples: "type_q q06 = SELECT" "type_q q07 = SELECT"
  by (simp_all add: q06_def q07_def)

lemma sessionAtSix_facts:
  "sessionFound sessionAtSix" "storedSession sessionAtSix \<noteq> None" "pointer sessionAtSix = 5"
  "active sessionAtSix" "\<not> finished sessionAtSix"
  by (simp_all add: sessionFound_def active_def finished_def pointer_def storedSession_def
        currentSession_def sessionAtSix_def sixthQuestion_def str_def)

lemma finishedAtSix_facts:
  "sessionFound finishedAtSix" "storedSession finishedAtSix \<noteq> None" "pointer finishedAtSix = 5"
  "finished finishedAtSix" "\<not> active finishedAtSix"
  by (simp_all add: sessionFound_def active_def finished_def pointer_def storedSession_def
        currentSession_def finishedAtSix_def sessionAtSix_def sixthQuestion_def str_def)

theorem record_answer_failure_witness:
  "fst (handleRecordAnswer ucd (answer ''q99'' ''oui'') sessionAtSix) \<in> set errorResults
   \<and> snd (handleRecordAnswer ucd (answer ''q99'' ''oui'') sessionAtSix) = sessionAtSix
   \<and> fst (handleRecordAnswer ucd (answer ''q06'' ''Autre'') sessionAtSix) \<notin> set errorResults
   \<and> pointer (snd (handleRecordAnswer ucd (answer ''q06'' ''Autre'') sessionAtSix)) = 6
   \<and> rawAnswer (snd (handleRecordAnswer ucd (answer ''q06'' ''Autre'') sessionAtSix)) (notionKey q06)
       = Some (JStr (str ''Autre''))"
proof -
  from record_answer_failure [where app = sessionAtSix and args = "answer ''q99'' ''oui''" and U = ucd
      and i = 0] questionIndex_examples(5)
  have refused: "fst (handleRecordAnswer ucd (answer ''q99'' ''oui'') sessionAtSix) \<in> set errorResults
      \<and> snd (handleRecordAnswer ucd (answer ''q99'' ''oui'') sessionAtSix) = sessionAtSix"
    by simp
  from record_answer_failure [where app = sessionAtSix and args = "answer ''q06'' ''Autre''" and U = ucd
      and i = 5] sessionAtSix_facts(1,2) questionIndex_examples(2)
  have res: "fst (handleRecordAnswer ucd (answer ''q06'' ''Autre'') sessionAtSix) \<notin> set errorResults"
    and p: "pointer (snd (handleRecordAnswer ucd (answer ''q06'' ''Autre'') sessionAtSix)) = 6"
    and "\<exists>d. d (notionKey (QUESTIONS ! 5))
              = Some (case type_q (QUESTIONS ! 5) of
                        MULTI_SELECT \<Rightarrow>
                          if truthy (multiValues (answer ''q06'' ''Autre''))
                          then multiValues (answer ''q06'' ''Autre'') else JArr []
                      | BOOL \<Rightarrow>
                          JBool (trim (toLowerCase ucd (toStringJS (value_a (answer ''q06'' ''Autre''))))
                                   \<in> set yesWords)
                      | _ \<Rightarrow> value_a (answer ''q06'' ''Autre''))
          \<and> rawAnswer (snd (handleRecordAnswer ucd (answer ''q06'' ''Autre'') sessionAtSix)) = d"
    by auto
  then have "rawAnswer (snd (handleRecordAnswer ucd (answer ''q06'' ''Autre'') sessionAtSix)) (notionKey q06)
      = Some (JStr (str ''Autre''))"
    by (auto simp: nth_QUESTIONS select_examples answer_def)
  with refused res p show ?thesis by simp
qed

lemma accepted_entry:
  assumes "sessionFound app" and "questionIndex (questionId args) = Some i"
    and "storedSession app \<noteq> None" and "type_q (QUESTIONS ! i) = SELECT"
  shows "rawAnswer (snd (handleRecordAnswer U args app)) (notionKey (QUESTIONS ! i)) = Some (value_a args)"
proof -
  from assms(2) have "i < length QUESTIONS" by (rule questionIndex_bound)
  then have "QUESTIONS ! i \<in> set QUESTIONS" by simp
  with autreKeys_apart have "autreKey (QUESTIONS ! i) \<noteq> Some (notionKey (QUESTIONS ! i))"
    by blast
  from newData_entry [OF this, of U args] assms(4) accepted_rawAnswer [OF assms(1-3), of U]
  show ?thesis by auto
qed

text \<open>
  The claim as it is stated makes the call fail when no session is active. The handler
  never reads \<open>isFinished\<close>: on a session that is finished and still the current one, a call
  that names q07 is accepted like any other; it writes the answer and sets the pointer.
\<close>

theorem record_answer_failure_counterexample:
  "\<not> active finishedAtSix
   \<and> fst (handleRecordAnswer ucd (answer ''q07'' ''Direction'') finishedAtSix)
       = str ''[EVENT: RECORD_SUCCESS]''
   \<and> pointer (snd (handleRecordAnswer ucd (answer ''q07'' ''Direction'') finishedAtSix)) = 7
   \<and> rawAnswer (snd (handleRecordAnswer ucd (answer ''q07'' ''Direction'') finishedAtSix)) (notionKey q07)
       = Some (JStr (str ''Direction''))"
proof -
  note f = finishedAtSix_facts(1) and q = questionIndex_examples(3) [of "''Direction''"]
  from handleRecordAnswer_accepted [OF f q, of ucd]
  have 1: "fst (handleRecordAnswer ucd (answer ''q07'' ''Direction'') finishedAtSix)
      = str ''[EVENT: RECORD_SUCCESS]''"
    by (auto simp: length_QUESTIONS)
  from accepted_pointer(1) [OF f q finishedAtSix_facts(2), of ucd]
  have 2: "pointer (snd (handleRecordAnswer ucd (answer ''q07'' ''Direction'') finishedAtSix)) = 7"
    by simp
  from accepted_entry [OF f q finishedAtSix_facts(2), of ucd]
  have 3: "rawAnswer (snd (handleRecordAnswer ucd (answer ''q07'' ''Direction'') finishedAtSix)) (notionKey q07)
      = Some (JStr (str ''Direction''))"
    by (simp add: nth_QUESTIONS select_examples answer_def)
  from finishedAtSix_facts(5) 1 2 3 show ?thesis by simp
qed

text \<open>
  The claim as it is stated: the pointer never decreases, and the session is finished when
  the pointer reaches the length of the catalogue. The handler sets the pointer from the
  question id of the call and never reads the pointer: with the session at the sixth
  question, a call that names q02 takes the pointer from 5 back to 2. And a call that names
  the last question brings the pointer to the length of the catalogue and leaves the session
  unfinished: the handler marks the final speech pending, and the flag is set later.
\<close>

theorem pointer_monotone_counterexample:
  "active sessionAtSix \<and> pointer sessionAtSix = 5
   \<and> pointer (step ucd sessionAtSix (RecordAnswer (answer ''q02'' ''2''))) = 2
   \<and> pointer (step ucd sessionAtSix (RecordAnswer (answer ''q21'' ''oui''))) = length QUESTIONS
   \<and> \<not> finished (step ucd sessionAtSix (RecordAnswer (answer ''q21'' ''oui'')))"
  using sessionAtSix_facts(3,4,5)
    accepted_pointer(1) [OF sessionAtSix_facts(1) questionIndex_examples(1) sessionAtSix_facts(2), of ucd "''2''"]
    accepted_pointer(1) [OF sessionAtSix_facts(1) questionIndex_examples(4) sessionAtSix_facts(2), of ucd "''oui''"]
    record_finished [of ucd "answer ''q21'' ''oui''" sessionAtSix]
  by (simp add: length_QUESTIONS)

section \<open>Runs: the pointer and the finished flag\<close>

lemma storedSession_same:
  "sessions app' = sessions app \<Longrightarrow> currentSessionIdRef app' = currentSessionIdRef app
   \<Longrightarrow> storedSession app' = storedSession app"
  by (simp add: storedSession_def cong: option.case_cong)

lemma turn_sessions:
  "sessions (onTurnComplete U inputText outputText app) =
     (if trim inputText \<noteq> [] \<or> trim outputText \<noteq> [] then
        map (\<lambda>s. if Some (id_s s) = currentSessionIdRef app
                  then addTurn U (trim inputText) (trim outputText) s else s)
          (sessions app)
      else sessions app)"
  "currentSessionIdRef (onTurnComplete U inputText outputText app) = currentSessionIdRef app"
  "isPendingFinalSpeechRef app \<Longrightarrow> finishTimers (onTurnComplete U inputText outputText app) = finishTimers app + 1"
  by (simp_all add: onTurnComplete_def Let_def)

lemma turn_stored:
  "storedSession (onTurnComplete U inputText outputText app) = storedSession app
   \<or> storedSession (onTurnComplete U inputText outputText app)
       = map_option (addTurn U (trim inputText) (trim outputText)) (storedSession app)"
proof (cases "currentSessionIdRef app")
  case None
  then show ?thesis by (simp add: storedSession_def turn_sessions(2))
next
  case (Some cid)
  show ?thesis
  proof (cases "trim inputText \<noteq> [] \<or> trim outputText \<noteq> []")
    case False
    then have "storedSession (onTurnComplete U inputText outputText app) = storedSession app"
      by (intro storedSession_same) (simp_all add: turn_sessions)
    then show ?thesis by simp
  next
    case True
    have "find (\<lambda>s. id_s s = cid) (map (\<lambda>s. if id_s s = cid
              then addTurn U (trim inputText) (trim outputText) s else s) (sessions app))
        = map_option (addTurn U (trim inputText) (trim outputText))
            (find (\<lambda>s. id_s s = cid) (sessions app))"
      by (rule find_map_update) (simp add: addTurn_def)
    with True Some have "storedSession (onTurnComplete U inputText outputText app)
       = map_option (addTurn U (trim inputText) (trim outputText)) (storedSession app)"
      by (simp add: storedSession_def turn_sessions)
    then show ?thesis by simp
  qed
qed

lemma turn_pointer:
  "pointer (onTurnComplete U inputText outputText app) = pointer app"
  "finished (onTurnComplete U inputText outputText app) = finished app"
  "(storedSession (onTurnComplete U inputText outputText app) = None) = (storedSession app = None)"
  using turn_stored [of U inputText outputText app]
  by (auto simp: pointer_def finished_def addTurn_def split: option.splits)

lemma timer_stored:
  "storedSession (finishTimerFires app)
     = map_option
         (\<lambda>s. if finishTimers app = 0 \<or> currentSessionIdRef app = Some [] then s
               else s\<lparr> isFinished := True \<rparr>)
         (storedSession app)"
proof (cases "finishTimers app = 0 \<or> currentSessionIdRef app = Some []")
  case True
  then have "storedSession (finishTimerFires app) = storedSession app"
    by (intro storedSession_same) (auto simp: finishTimerFires_def updateCurrentSession_def)
  with True show ?thesis by (simp add: option.map_ident)
next
  case False
  show ?thesis
  proof (cases "currentSessionIdRef app")
    case None
    then show ?thesis by (simp add: finishTimerFires_def updateCurrentSession_def storedSession_def)
  next
    case (Some cid)
    with False have ne: "cid \<noteq> []" and t: "finishTimers app \<noteq> 0" by simp_all
    have "find (\<lambda>s. id_s s = cid)
            (map (\<lambda>s. if id_s s = cid then s\<lparr> isFinished := True \<rparr> else s) (sessions app))
        = map_option (\<lambda>s. s\<lparr> isFinished := True \<rparr>) (find (\<lambda>s. id_s s = cid) (sessions app))"
      by (rule find_map_update) simp
    with Some ne t show ?thesis
      by (simp add: finishTimerFires_def updateCurrentSession_def storedSession_def)
  qed
qed

lemma timer_pointer:
  "pointer (finishTimerFires app) = pointer app"
  "finished app \<Longrightarrow> finished (finishTimerFires app)"
  by (auto simp: timer_stored pointer_def finished_def split: option.splits)

lemma timer_finishes:
  assumes "finishTimers app \<noteq> 0" and "currentSessionIdRef app = Some cid" and "cid \<noteq> []"
    and "storedSession app \<noteq> None"
  shows "finished (finishTimerFires app)"
  using assms by (auto simp: timer_stored finished_def)

lemma render_stored: "storedSession (render app) = storedSession app"
  by (rule storedSession_same) (simp_all add: render_def)

lemma render_pointer: "pointer (render app) = pointer app" "finished (render app) = finished app"
  by (simp_all add: render_stored pointer_def finished_def)

text \<open>One step: the pointer under the condition of \<open>neverBack\<close>, the finished flag always.\<close>

lemma record_pointer:
  assumes "case questionIndex (questionId a) of None \<Rightarrow> True
           | Some i \<Rightarrow> sessionFound app \<longrightarrow> pointer app \<le> i + 1"
  shows "pointer app \<le> pointer (snd (handleRecordAnswer U a app))"
proof (cases "sessionFound app \<and> questionIndex (questionId a) \<noteq> None")
  case True
  then obtain i where found: "sessionFound app" and qi: "questionIndex (questionId a) = Some i"
    by auto
  with assms have le: "pointer app \<le> i + 1" by simp
  from accepted_stored [OF found qi, of U] obtain d where
    "storedSession (snd (handleRecordAnswer U a app))
       = map_option (\<lambda>s. s\<lparr> auditData := d, currentStep := i + 1, consecutiveErrors := 0 \<rparr>)
           (storedSession app)"
    by (elim exE)
  with le show ?thesis
    by (cases "storedSession app") (simp_all add: pointer_def)
next
  case False
  then have "snd (handleRecordAnswer U a app) = app"
    by (intro handleRecordAnswer_refused) auto
  then show ?thesis by simp
qed

lemma step_pointer:
  assumes "case e of
             RecordAnswer a \<Rightarrow>
               (case questionIndex (questionId a) of
                  None \<Rightarrow> True
                | Some i \<Rightarrow> sessionFound app \<longrightarrow> pointer app \<le> i + 1)
           | _ \<Rightarrow> True"
  shows "pointer app \<le> pointer (step U app e)"
proof (cases e)
  case (RecordAnswer a)
  with assms have "case questionIndex (questionId a) of None \<Rightarrow> True
           | Some i \<Rightarrow> sessionFound app \<longrightarrow> pointer app \<le> i + 1"
    by simp
  then have "pointer app \<le> pointer (snd (handleRecordAnswer U a app))" by (rule record_pointer)
  with RecordAnswer show ?thesis by simp
next
  case (TurnComplete inputText outputText)
  then show ?thesis by (simp add: turn_pointer)
next
  case FinishTimer
  then show ?thesis by (simp add: timer_pointer)
next
  case Render
  then show ?thesis by (simp add: render_pointer)
qed

lemma step_finished: "finished app \<Longrightarrow> finished (step U app e)"
  by (cases e) (simp_all add: record_finished turn_pointer timer_pointer render_pointer)

lemma run_hd: "hd (run U app evs) = app" "run U app evs \<noteq> []"
  by (cases evs; simp)+

lemma sorted_trace:
  fixes f :: "'a \<Rightarrow> 'b::linorder"
  assumes "x \<le> f (hd xs)" and "xs \<noteq> []" and "sorted (map f xs)"
  shows "sorted (x # map f xs)"
proof -
  from assms(2) obtain y ys where xs: "xs = y # ys" by (cases xs) auto
  from assms(3) have "\<forall>z\<in>set ys. f y \<le> f z" "sorted (map f ys)" by (simp_all add: xs)
  with assms(1) show ?thesis unfolding xs by force
qed

lemma pointer_trace: "neverBack U app evs \<Longrightarrow> sorted (map pointer (run U app evs))"
proof (induction evs arbitrary: app)
  case Nil
  then show ?case by simp
next
  case (Cons e evs)
  from Cons.prems have cond: "case e of
             RecordAnswer a \<Rightarrow>
               (case questionIndex (questionId a) of
                  None \<Rightarrow> True
                | Some i \<Rightarrow> sessionFound app \<longrightarrow> pointer app \<le> i + 1)
           | _ \<Rightarrow> True"
    and rest: "neverBack U (step U app e) evs"
    by simp_all
  from cond have "pointer app \<le> pointer (step U app e)" by (rule step_pointer)
  then have 1: "pointer app \<le> pointer (hd (run U (step U app e) evs))" by (simp only: run_hd)
  from rest have 2: "sorted (map pointer (run U (step U app e) evs))" by (rule Cons.IH)
  from 1 run_hd(2) 2 have "sorted (pointer app # map pointer (run U (step U app e) evs))"
    by (rule sorted_trace)
  then show ?case by simp
qed

lemma finished_trace: "sorted (map finished (run U app evs))"
proof (induction evs arbitrary: app)
  case Nil
  then show ?case by simp
next
  case (Cons e evs)
  have "finished app \<longrightarrow> finished (step U app e)" by (simp add: step_finished)
  then have "finished app \<le> finished (step U app e)" by (simp add: le_bool_def)
  then have 1: "finished app \<le> finished (hd (run U (step U app e) evs))" by (simp only: run_hd)
  have 2: "sorted (map finished (run U (step U app e) evs))" by (rule Cons.IH)
  from 1 run_hd(2) 2 have "sorted (finished app # map finished (run U (step U app e) evs))"
    by (rule sorted_trace)
  then show ?case by (simp only: run.simps list.map)
qed

text \<open>A call that names the last question, the end of the turn, the timeout.\<close>

lemma accepted_refs:
  assumes "sessionFound app" and "questionIndex (questionId a) = Some i"
  shows "currentSessionIdRef (snd (handleRecordAnswer U a app)) = currentSessionIdRef app"
    and "length QUESTIONS \<le> i + 1 \<Longrightarrow> isPendingFinalSpeechRef (snd (handleRecordAnswer U a app))"
    and "length QUESTIONS \<le> i + 1 \<Longrightarrow> fst (handleRecordAnswer U a app) = str ''[EVENT: AUDIT_COMPLETED]''"
    and "length QUESTIONS \<le> i + 1 \<Longrightarrow>
           length (submitted (snd (handleRecordAnswer U a app))) = length (submitted app) + 1"
    and "sessionsRef (snd (handleRecordAnswer U a app)) = sessionsRef app"
proof -
  from handleRecordAnswer_accepted [OF assms, of U] obtain cid cur where
    cur: "currentSession app = Some cur"
    and after: "snd (handleRecordAnswer U a app) =
        app\<lparr> sessions :=
               map (\<lambda>s. if id_s s = cid
                         then s\<lparr> auditData := newData U (QUESTIONS ! i) a (auditData cur),
                                 currentStep := i + 1, consecutiveErrors := 0 \<rparr>
                         else s)
                 (sessions app),
             isPendingFinalSpeechRef := (length QUESTIONS \<le> i + 1 \<or> isPendingFinalSpeechRef app),
             submitted :=
               (if length QUESTIONS \<le> i + 1
                then submitted app @ [newData U (QUESTIONS ! i) a (auditData cur)]
                else submitted app) \<rparr>"
    and res: "fst (handleRecordAnswer U a app) =
        (if length QUESTIONS \<le> i + 1 then str ''[EVENT: AUDIT_COMPLETED]''
         else str ''[EVENT: RECORD_SUCCESS]'')"
    by (elim exE conjE) (rule that)
  show "currentSessionIdRef (snd (handleRecordAnswer U a app)) = currentSessionIdRef app"
    unfolding after by simp
  show "length QUESTIONS \<le> i + 1 \<Longrightarrow> isPendingFinalSpeechRef (snd (handleRecordAnswer U a app))"
    unfolding after by simp
  show "length QUESTIONS \<le> i + 1 \<Longrightarrow> fst (handleRecordAnswer U a app) = str ''[EVENT: AUDIT_COMPLETED]''"
    unfolding res by simp
  show "length QUESTIONS \<le> i + 1 \<Longrightarrow>
           length (submitted (snd (handleRecordAnswer U a app))) = length (submitted app) + 1"
    unfolding after by simp
  show "sessionsRef (snd (handleRecordAnswer U a app)) = sessionsRef app"
    unfolding after by simp
qed

lemma completion_finishes:
  assumes found: "sessionFound app" and stored: "storedSession app \<noteq> None"
    and qi: "questionIndex (questionId a) = Some i" and last: "length QUESTIONS \<le> i + 1"
  shows "finished (step U (step U (step U app (RecordAnswer a)) (TurnComplete inputText outputText))
           FinishTimer)"
proof -
  define app1 where "app1 = snd (handleRecordAnswer U a app)"
  define app2 where "app2 = onTurnComplete U inputText outputText app1"
  from found obtain cid where cid: "currentSessionIdRef app = Some cid" "cid \<noteq> []"
    by (auto simp: sessionFound_def split: option.splits)
  from accepted_refs(1) [OF found qi, of U] cid have cid1: "currentSessionIdRef app1 = Some cid"
    by (simp add: app1_def)
  from accepted_refs(2) [OF found qi last, of U] have pend: "isPendingFinalSpeechRef app1"
    by (simp add: app1_def)
  from accepted_pointer(3) [OF found qi stored, of U] have s1: "storedSession app1 \<noteq> None"
    by (simp add: app1_def)
  then have s2: "storedSession app2 \<noteq> None" by (simp add: app2_def turn_pointer)
  from pend have t2: "finishTimers app2 \<noteq> 0" by (simp add: app2_def turn_sessions)
  from cid1 have cid2: "currentSessionIdRef app2 = Some cid" by (simp add: app2_def turn_sessions)
  from t2 cid2 cid(2) s2 have "finished (finishTimerFires app2)" by (rule timer_finishes)
  then show ?thesis by (simp add: app1_def app2_def)
qed

text \<open>
  C2 (as amended). Take any run of \<open>record_answer\<close> calls, with ends of turns, finishing
  timeouts and renders in between. An accepted call sets the pointer to the position after
  the question it names, so the pointer never decreases as long as no accepted call names a
  question more than one place before the pointer. \<open>record_answer\<close> does not finish the
  session: the call that brings the pointer to the length of the catalogue marks the final
  speech pending, and the session is finished when the timeout set at the end of the next
  turn fires. The finished flag is never cleared: along every run it goes from unset to set
  at most once.
\<close>

theorem pointer_monotone:
  assumes "neverBack U app evs"
  shows "sorted (map pointer (run U app evs))
    \<and> sorted (map finished (run U app evs))
    \<and> (\<forall>s a i. sessionFound s \<and> storedSession s \<noteq> None \<and> questionIndex (questionId a) = Some i
          \<longrightarrow> pointer (step U s (RecordAnswer a)) = i + 1)
    \<and> (\<forall>s a. finished (step U s (RecordAnswer a)) = finished s)
    \<and> (\<forall>s a inputText outputText.
          sessionFound s \<and> storedSession s \<noteq> None
          \<and> questionIndex (questionId a) = Some (length QUESTIONS - 1)
          \<longrightarrow> pointer (step U s (RecordAnswer a)) = length QUESTIONS
              \<and> isPendingFinalSpeechRef (step U s (RecordAnswer a))
              \<and> finished (step U (step U (step U s (RecordAnswer a))
                                       (TurnComplete inputText outputText)) FinishTimer))"
proof (intro conjI allI impI)
  from assms show "sorted (map pointer (run U app evs))" by (rule pointer_trace)
  show "sorted (map finished (run U app evs))" by (rule finished_trace)
next
  fix s :: App and a :: RecordAnswerArgs and i :: nat
  assume "sessionFound s \<and> storedSession s \<noteq> None \<and> questionIndex (questionId a) = Some i"
  then have "sessionFound s" "questionIndex (questionId a) = Some i" "storedSession s \<noteq> None"
    by simp_all
  then have "pointer (snd (handleRecordAnswer U a s)) = i + 1" by (rule accepted_pointer)
  then show "pointer (step U s (RecordAnswer a)) = i + 1" by simp
next
  fix s :: App and a :: RecordAnswerArgs
  show "finished (step U s (RecordAnswer a)) = finished s" by (simp add: record_finished)
next
  fix s :: App and a :: RecordAnswerArgs and inputText outputText :: jstring
  assume h: "sessionFound s \<and> storedSession s \<noteq> None
      \<and> questionIndex (questionId a) = Some (length QUESTIONS - 1)"
  then have found: "sessionFound s" and stored: "storedSession s \<noteq> None"
    and qi: "questionIndex (questionId a) = Some (length QUESTIONS - 1)"
    by simp_all
  have last: "length QUESTIONS \<le> length QUESTIONS - 1 + 1" by simp
  have len: "length QUESTIONS - 1 + 1 = length QUESTIONS" by (simp add: length_QUESTIONS)
  from accepted_pointer(1) [OF found qi stored, of U] len
  show "pointer (step U s (RecordAnswer a)) = length QUESTIONS" by simp
  from accepted_refs(2) [OF found qi last, of U]
  show "isPendingFinalSpeechRef (step U s (RecordAnswer a))" by simp
  from found stored qi last
  show "finished (step U (step U (step U s (RecordAnswer a))
      (TurnComplete inputText outputText)) FinishTimer)"
    by (rule completion_finishes)
qed

lemma found_after_record:
  assumes "sessionFound app"
  shows "sessionFound (snd (handleRecordAnswer U a app))"
proof (cases "questionIndex (questionId a)")
  case None
  then have "snd (handleRecordAnswer U a app) = app" by (intro handleRecordAnswer_refused) simp
  with assms show ?thesis by simp
next
  case (Some i)
  from accepted_refs(1,5) [OF assms Some, of U] assms show ?thesis
    by (auto simp: sessionFound_def currentSession_def split: option.splits)
qed

lemma found_after_render:
  assumes "sessionFound app" and "storedSession app \<noteq> None"
  shows "sessionFound (render app)"
  using assms
  by (auto simp: sessionFound_def currentSession_def storedSession_def render_def split: option.splits)

theorem pointer_monotone_witness:
  "sorted (map pointer (run ucd sessionAtSix runToEnd))
   \<and> map pointer (run ucd sessionAtSix runToEnd) = [5, 6, 6, 21, 21, 21]
   \<and> map finished (run ucd sessionAtSix runToEnd) = [False, False, False, False, False, True]"
proof -
  define app1 where "app1 = snd (handleRecordAnswer ucd (answer ''q06'' ''Autre'') sessionAtSix)"
  define app2 where "app2 = render app1"
  define app3 where "app3 = snd (handleRecordAnswer ucd (answer ''q21'' ''oui'') app2)"
  define app4 where "app4 = onTurnComplete ucd [] (str ''Merci pour votre participation'') app3"
  define app5 where "app5 = finishTimerFires app4"
  note f0 = sessionAtSix_facts(1) and s0 = sessionAtSix_facts(2)
  note q06 = questionIndex_examples(2) [of "''Autre''"] and q21 = questionIndex_examples(4) [of "''oui''"]
  have trace: "run ucd sessionAtSix runToEnd = [sessionAtSix, app1, app2, app3, app4, app5]"
    by (simp add: runToEnd_def app1_def app2_def app3_def app4_def app5_def)
  have p1: "pointer app1 = 6" using accepted_pointer(1) [OF f0 q06 s0, of ucd] by (simp add: app1_def)
  have s1: "storedSession app1 \<noteq> None" using accepted_pointer(3) [OF f0 q06 s0, of ucd] by (simp add: app1_def)
  have f1: "sessionFound app1" using f0 unfolding app1_def by (rule found_after_record)
  have n1: "\<not> finished app1" using sessionAtSix_facts(5) by (simp add: app1_def record_finished)
  have p2: "pointer app2 = 6" using p1 by (simp add: app2_def render_pointer)
  have s2: "storedSession app2 \<noteq> None" using s1 by (simp add: app2_def render_stored)
  have f2: "sessionFound app2" using f1 s1 unfolding app2_def by (rule found_after_render)
  have n2: "\<not> finished app2" using n1 by (simp add: app2_def render_pointer)
  have p3: "pointer app3 = 21" using accepted_pointer(1) [OF f2 q21 s2, of ucd] by (simp add: app3_def)
  have n3: "\<not> finished app3" using n2 by (simp add: app3_def record_finished)
  have p4: "pointer app4 = 21" using p3 by (simp add: app4_def turn_pointer)
  have n4: "\<not> finished app4" using n3 by (simp add: app4_def turn_pointer)
  have p5: "pointer app5 = 21" using p4 by (simp add: app5_def timer_pointer)
  have "length QUESTIONS \<le> 20 + 1" by (simp add: length_QUESTIONS)
  with f2 s2 q21 have "finished (step ucd (step ucd (step ucd app2 (RecordAnswer (answer ''q21'' ''oui'')))
      (TurnComplete [] (str ''Merci pour votre participation''))) FinishTimer)"
    by (rule completion_finishes)
  then have y5: "finished app5" by (simp add: app3_def app4_def app5_def)
  have nb: "neverBack ucd sessionAtSix runToEnd"
    using f0 f2 p2 q06 q21
    by (simp add: runToEnd_def sessionAtSix_facts(3) app1_def [symmetric] app2_def [symmetric])
  from pointer_monotone [OF nb] have "sorted (map pointer (run ucd sessionAtSix runToEnd))"
    by (rule conjunct1)
  moreover have "map pointer (run ucd sessionAtSix runToEnd) = [5, 6, 6, 21, 21, 21]"
    unfolding trace using sessionAtSix_facts(3) p1 p2 p3 p4 p5 by simp
  moreover have "map finished (run ucd sessionAtSix runToEnd) = [False, False, False, False, False, True]"
    unfolding trace using sessionAtSix_facts(5) n1 n2 n3 n4 y5 by simp
  ultimately show ?thesis by blast
qed

text \<open>
  The handler has no guard against a second call for the last question: each accepted one
  starts a submission.
\<close>

lemma last_question_twice:
  "map pointer (run ucd sessionAtSix
        [RecordAnswer (answer ''q21'' ''oui''), RecordAnswer (answer ''q21'' ''non'')]) = [5, 21, 21]
   \<and> length (submitted (last (run ucd sessionAtSix
        [RecordAnswer (answer ''q21'' ''oui''), RecordAnswer (answer ''q21'' ''non'')]))) = 2"
proof -
  define app1 where "app1 = snd (handleRecordAnswer ucd (answer ''q21'' ''oui'') sessionAtSix)"
  define app2 where "app2 = snd (handleRecordAnswer ucd (answer ''q21'' ''non'') app1)"
  note f0 = sessionAtSix_facts(1) and s0 = sessionAtSix_facts(2)
  note qa = questionIndex_examples(4) [of "''oui''"] and qb = questionIndex_examples(4) [of "''non''"]
  have last: "length QUESTIONS \<le> 20 + 1" by (simp add: length_QUESTIONS)
  have e: "submitted sessionAtSix = []" by (simp add: sessionAtSix_def)
  have p1: "pointer app1 = 21" using accepted_pointer(1) [OF f0 qa s0, of ucd] by (simp add: app1_def)
  have s1: "storedSession app1 \<noteq> None" using accepted_pointer(3) [OF f0 qa s0, of ucd] by (simp add: app1_def)
  have f1: "sessionFound app1" using f0 unfolding app1_def by (rule found_after_record)
  have n1: "length (submitted app1) = 1" using accepted_refs(4) [OF f0 qa last, of ucd] e by (simp add: app1_def)
  have p2: "pointer app2 = 21" using accepted_pointer(1) [OF f1 qb s1, of ucd] by (simp add: app2_def)
  have n2: "length (submitted app2) = 2" using accepted_refs(4) [OF f1 qb last, of ucd] n1 by (simp add: app2_def)
  have trace: "run ucd sessionAtSix
      [RecordAnswer (answer ''q21'' ''oui''), RecordAnswer (answer ''q21'' ''non'')] = [sessionAtSix, app1, app2]"
    by (simp add: app1_def app2_def)
  show ?thesis unfolding trace using sessionAtSix_facts(3) p1 p2 n2 by simp
qed

section \<open>The submission pipeline: how many deliveries\<close>

text \<open>The current client posts the payload once, whatever the two calls meet.\<close>

lemma submitToWebhook_once:
  "length (deliveries (submitToWebhook U sessionId nowISO tr rawData res del)) = 1"
  by (simp add: submitToWebhook_def Let_def)

lemma retrying_second_attempt:
  "length (deliveries (submitToWebhook_retrying attempts (Suc 0))) \<le> 1"
  by (simp split: prod.splits option.splits deliveryOutcome.splits)

text \<open>The retrying client posts it at most twice.\<close>

lemma retrying_at_most_twice:
  "length (deliveries (submitToWebhook_retrying attempts 0)) \<le> 2"
  using retrying_second_attempt [of attempts]
  by (simp add: Let_def split: prod.splits option.splits deliveryOutcome.splits)

text \<open>
  C8. The claim holds of the current client (\<open>submitToWebhook_once\<close>) and fails of the
  retrying copy: when the endpoint answers the first delivery with HTTP 500, the function
  calls itself again and posts the payload a second time.
\<close>

theorem retrying_delivers_twice:
  "deliveries (submitToWebhook_retrying serverErrorThenOk 0) = [chefDeProjet, chefDeProjet]
   \<and> status (submitToWebhook_retrying serverErrorThenOk 0) = Success"
  by (simp add: serverErrorThenOk_def responseOk_def Let_def)

section \<open>Playback scheduling: no overlap, no gap\<close>

lemma startTimes_Cons:
  "startTimes c ((now, d) # cs) = max c now # startTimes (max c now + d) cs"
  by (simp add: scheduleChunk_def Let_def)

lemma startTimes_lower: "x \<in> set (startTimes c cs) \<Longrightarrow> \<forall>p\<in>set cs. 0 \<le> snd p \<Longrightarrow> c \<le> x"
proof (induction cs arbitrary: c)
  case Nil
  then show ?case by simp
next
  case (Cons p cs)
  obtain now d where p: "p = (now, d)" by (cases p)
  define m where "m = max c now"
  have cm: "c \<le> m" unfolding m_def by (rule max.cobounded1)
  from Cons.prems(2) p have d: "0 \<le> d" by simp
  from Cons.prems(2) have rest: "\<forall>p\<in>set cs. 0 \<le> snd p" by simp
  have "startTimes c (p # cs) = m # startTimes (m + d) cs"
    unfolding p m_def by (rule startTimes_Cons)
  with Cons.prems(1) have "x = m \<or> x \<in> set (startTimes (m + d) cs)" by simp
  then show ?case
  proof
    assume "x = m"
    with cm show ?thesis by simp
  next
    assume "x \<in> set (startTimes (m + d) cs)"
    then have "m + d \<le> x" using rest by (rule Cons.IH)
    with d cm show ?thesis by linarith
  qed
qed

lemma startTimes_sorted: "\<forall>p\<in>set cs. 0 \<le> snd p \<Longrightarrow> sorted (startTimes c cs)"
proof (induction cs arbitrary: c)
  case Nil
  then show ?case by simp
next
  case (Cons p cs)
  obtain now d where p: "p = (now, d)" by (cases p)
  define m where "m = max c now"
  from Cons.prems p have d: "0 \<le> d" by simp
  from Cons.prems have rest: "\<forall>p\<in>set cs. 0 \<le> snd p" by simp
  have low: "\<forall>x\<in>set (startTimes (m + d) cs). m \<le> x"
  proof
    fix x assume "x \<in> set (startTimes (m + d) cs)"
    then have "m + d \<le> x" using rest by (rule startTimes_lower)
    with d show "m \<le> x" by linarith
  qed
  have tl: "sorted (startTimes (m + d) cs)" using rest by (rule Cons.IH)
  have "startTimes c (p # cs) = m # startTimes (m + d) cs"
    unfolding p m_def by (rule startTimes_Cons)
  with low tl show ?case by simp
qed

lemma startTimes_step:
  "Suc k < length cs \<Longrightarrow>
   startTimes c cs ! Suc k = max (startTimes c cs ! k + snd (cs ! k)) (fst (cs ! Suc k))"
proof (induction cs arbitrary: c k)
  case Nil
  then show ?case by simp
next
  case (Cons p cs)
  obtain now d where p: "p = (now, d)" by (cases p)
  define m where "m = max c now"
  have hd: "startTimes c (p # cs) = m # startTimes (m + d) cs"
    unfolding p m_def by (rule startTimes_Cons)
  show ?case
  proof (cases k)
    case 0
    with Cons.prems obtain q cs' where cs: "cs = q # cs'" by (cases cs) auto
    obtain now' d' where q: "q = (now', d')" by (cases q)
    have "startTimes (m + d) cs = max (m + d) now' # startTimes (max (m + d) now' + d') cs'"
      unfolding cs q by (rule startTimes_Cons)
    with hd have "startTimes c (p # cs) ! Suc 0 = max (m + d) now'"
      and "startTimes c (p # cs) ! 0 = m" by simp_all
    moreover have "snd ((p # cs) ! 0) = d" and "fst ((p # cs) ! Suc 0) = now'"
      by (simp_all add: p cs q)
    ultimately show ?thesis unfolding 0 by simp
  next
    case (Suc j)
    with Cons.prems have "Suc j < length cs" by simp
    then have "startTimes (m + d) cs ! Suc j
        = max (startTimes (m + d) cs ! j + snd (cs ! j)) (fst (cs ! Suc j))"
      by (rule Cons.IH)
    moreover have "startTimes c (p # cs) ! Suc (Suc j) = startTimes (m + d) cs ! Suc j"
      and "startTimes c (p # cs) ! Suc j = startTimes (m + d) cs ! j"
      and "(p # cs) ! Suc (Suc j) = cs ! Suc j" and "(p # cs) ! Suc j = cs ! j"
      by (simp_all add: hd)
    ultimately show ?thesis unfolding Suc by simp
  qed
qed

text \<open>
  C6. With non-negative buffer durations, the start times are non-decreasing; each start time
  is at least the previous start time plus the previous duration (no overlap); and it is
  exactly that sum when the chunk is scheduled before the previous one has finished playing
  (back-to-back arrival, no gap).
\<close>

theorem audio_scheduling:
  assumes "\<forall>p\<in>set cs. 0 \<le> snd p"
  shows "sorted (startTimes c cs)
    \<and> (\<forall>k. Suc k < length cs \<longrightarrow>
           startTimes c cs ! k + snd (cs ! k) \<le> startTimes c cs ! Suc k)
    \<and> (\<forall>k. Suc k < length cs \<and> fst (cs ! Suc k) \<le> startTimes c cs ! k + snd (cs ! k) \<longrightarrow>
           startTimes c cs ! Suc k = startTimes c cs ! k + snd (cs ! k))"
proof (intro conjI allI impI)
  show "sorted (startTimes c cs)"
    using assms by (rule startTimes_sorted)
next
  fix k assume "Suc k < length cs"
  from startTimes_step [OF this, of c]
  show "startTimes c cs ! k + snd (cs ! k) \<le> startTimes c cs ! Suc k"
    by linarith
next
  fix k assume k: "Suc k < length cs \<and> fst (cs ! Suc k) \<le> startTimes c cs ! k + snd (cs ! k)"
  then have "Suc k < length cs" by blast
  from startTimes_step [OF this, of c] k
  show "startTimes c cs ! Suc k = startTimes c cs ! k + snd (cs ! k)"
    by linarith
qed

theorem audio_scheduling_witness:
  "startTimes 0 demoChunks = [1, 3, 5] \<and> sorted (startTimes 0 demoChunks)"
proof -
  have h: "\<forall>p\<in>set demoChunks. 0 \<le> snd p" by (simp add: demoChunks_def)
  have v: "startTimes 0 demoChunks = [1, 3, 5]"
    by (simp add: demoChunks_def scheduleChunk_def Let_def)
  have s: "sorted (startTimes 0 demoChunks)"
    using audio_scheduling [OF h, of 0] by (rule conjunct1)
  from v s show ?thesis by blast
qed

end
